theory Spec2Isabelle
  imports Main
begin

section \<open>The optional container \<open>Opt<T>\<close> of \<open>Optional.h\<close>\<close>

text \<open>
  \<open>Opt<T>\<close> owns one raw storage slot (\<open>union { T value; }\<close>) and one flag
  (\<open>bool hasValue\<close>). The element type \<open>T\<close> is a template parameter: its constructors,
  assignment operators and destructor are taken as parameters of the model
  (\<open>T_ops\<close>), each of which may raise. Containers live in a store indexed by
  address, so that the two-container operations (copy, move) are modelled with
  the aliasing the source has, and every call of an operation of \<open>T\<close> on a
  container's slot is recorded in a trace.
\<close>

subsection \<open>Data model\<close>

type_synonym addr = nat

datatype exn = Exn nat
  \<comment> \<open>an exception object raised by an operation of \<open>T\<close>\<close>

datatype error =
    Thrown exn          \<comment> \<open>the operation exits by an exception\<close>
  | Terminate           \<comment> \<open>an exception reached a \<open>noexcept\<close> boundary: \<open>std::terminate\<close>\<close>
  | Assertion_failed    \<comment> \<open>\<open>assert(hasValue)\<close> failed (checked build)\<close>
  | Invalid_use         \<comment> \<open>outside the language's rules: member call on an address that
                            holds no container, construction over an existing container,
                            use of a \<open>T\<close> in storage that holds none\<close>

datatype T_call = Construct | Assign | Destruct

datatype event = Call addr T_call "exn option"
  \<comment> \<open>\<open>Call a k r\<close>: an operation of \<open>T\<close> of kind \<open>k\<close> ran on the slot of the container at
      \<open>a\<close>; \<open>r\<close> is the exception it raised, if any\<close>

record 't Opt =
  valueT :: "'t option"    \<comment> \<open>\<open>union { T value; }\<close>: \<open>Some v\<close> when the slot holds a live \<open>T\<close>\<close>
  hasValue :: bool         \<comment> \<open>\<open>bool hasValue = false\<close>\<close>

record 't world =
  heap :: "addr \<Rightarrow> 't Opt option"   \<comment> \<open>the containers that exist, by address\<close>
  trace :: "event list"              \<comment> \<open>calls of \<open>T\<close>'s operations so far, oldest first\<close>

text \<open>
  The operations of the element type. A constructor yields the new object or
  raises; a move also says in what state it leaves its source; an assignment
  says in what state it leaves its target (and, for a move, its source),
  whether or not it raises.
\<close>

record ('t, 'u) T_ops =
  T_copy :: "'t \<Rightarrow> exn + 't"                               \<comment> \<open>\<open>T(const T&)\<close>\<close>
  T_move :: "'t \<Rightarrow> (exn + 't) \<times> 't"                      \<comment> \<open>\<open>T(T&&)\<close>: result, source afterwards\<close>
  T_conv :: "'u \<Rightarrow> exn + 't"                               \<comment> \<open>\<open>T(U&&)\<close>\<close>
  T_assign :: "'t \<Rightarrow> 't \<Rightarrow> exn option \<times> 't"              \<comment> \<open>\<open>t = const T&\<close>: target afterwards\<close>
  T_move_assign :: "'t \<Rightarrow> 't \<Rightarrow> exn option \<times> 't \<times> 't"   \<comment> \<open>\<open>t = T&&\<close>: target, source afterwards\<close>
  T_conv_assign :: "'t \<Rightarrow> 'u \<Rightarrow> exn option \<times> 't"         \<comment> \<open>\<open>t = U&&\<close>: target afterwards\<close>
  T_dtor :: "'t \<Rightarrow> exn option"                             \<comment> \<open>\<open>~T()\<close>\<close>
  Opt_dtor_noexcept :: bool
    \<comment> \<open>whether \<open>~Opt<T>()\<close>, which is declared without a \<open>noexcept\<close>-specifier, is
        non-throwing: the implicit exception specification that the implementation
        computes for it\<close>

datatype 't ret =
    Unit               \<comment> \<open>a constructor or destructor returned\<close>
  | Self addr          \<comment> \<open>\<open>return *this\<close>\<close>
  | Bool bool
  | Ref 't             \<comment> \<open>a reference to the contained \<open>T\<close>, read\<close>
  | Ptr "'t option"    \<comment> \<open>\<open>&value\<close>: what the slot holds\<close>

subsection \<open>Store primitives\<close>

definition emit :: "event \<Rightarrow> 't world \<Rightarrow> 't world" where
  "emit ev w = w\<lparr>trace := trace w @ [ev]\<rparr>"

definition put :: "addr \<Rightarrow> 't Opt option \<Rightarrow> 't world \<Rightarrow> 't world" where
  "put a x w = w\<lparr>heap := (heap w)(a := x)\<rparr>"

definition set_value :: "addr \<Rightarrow> 't option \<Rightarrow> 't world \<Rightarrow> 't world" where
  "set_value a v w = put a (map_option (\<lambda>c. c\<lparr>valueT := v\<rparr>) (heap w a)) w"

definition set_hasValue :: "addr \<Rightarrow> bool \<Rightarrow> 't world \<Rightarrow> 't world" where
  "set_hasValue a b w = put a (map_option (\<lambda>c. c\<lparr>hasValue := b\<rparr>) (heap w a)) w"

definition raw :: "bool \<Rightarrow> 't Opt" where
  \<comment> \<open>a container whose flag has been initialised and whose slot is still raw\<close>
  "raw b = \<lparr>valueT = None, hasValue = b\<rparr>"

subsection \<open>Destruction\<close>

text \<open>
  \<^verbatim>\<open>auto Opt<T>::Destroy() -> void
  { if (hasValue) { value.~T(); hasValue = false; } }\<close>
  The lifetime of the contained \<open>T\<close> ends when its destructor is entered; when
  the destructor raises, the statement after it does not run.
\<close>

definition Destroy :: "('t, 'u) T_ops \<Rightarrow> addr \<Rightarrow> 't world \<Rightarrow> (error + unit) \<times> 't world" where
  "Destroy ops this w =
     (case heap w this of
        None \<Rightarrow> (Inl Invalid_use, w)
      | Some self \<Rightarrow>
          if hasValue self then
            (case valueT self of
               None \<Rightarrow> (Inl Invalid_use, w)
             | Some v \<Rightarrow>
                 (case T_dtor ops v of
                    Some e \<Rightarrow>
                      (Inl (Thrown e), emit (Call this Destruct (Some e)) (set_value this None w))
                  | None \<Rightarrow>
                      (Inr (),
                       set_hasValue this False
                         (emit (Call this Destruct None) (set_value this None w)))))
          else (Inr (), w))"

text \<open>
  \<^verbatim>\<open>constexpr Opt<T>::~Opt() { Destroy(); }\<close>
  The destructor has no \<open>noexcept\<close>-specifier. Its implicit exception
  specification is computed from the class, and whether the variant member
  \<open>value\<close> of type \<open>T\<close> counts in it is not settled by the source: it is the
  parameter \<open>Opt_dtor_noexcept\<close>. Where the destructor is non-throwing, an
  exception of \<open>~T()\<close> that would leave it ends the program; otherwise it leaves
  it. Either way the container's lifetime has ended.
\<close>

definition Opt_dtor :: "('t, 'u) T_ops \<Rightarrow> addr \<Rightarrow> 't world \<Rightarrow> (error + 't ret) \<times> 't world" where
  "Opt_dtor ops this w =
     (case Destroy ops this w of
        (Inl Invalid_use, w') \<Rightarrow> (Inl Invalid_use, w')
      | (Inl err, w') \<Rightarrow>
          (Inl (if Opt_dtor_noexcept ops then Terminate else err), put this None w')
      | (Inr _, w') \<Rightarrow> (Inr Unit, put this None w'))"

subsection \<open>Construction\<close>

text \<open>
  A constructor runs on an address that holds no container. When it exits by an
  exception, no container has come into existence there.

  \<^verbatim>\<open>constexpr Opt() {};\<close> and \<^verbatim>\<open>constexpr Opt<T>::Opt(NullOpt) { }\<close>:
  the default member initialiser clears the flag, the slot stays raw.
\<close>

definition Opt_default :: "addr \<Rightarrow> 't world \<Rightarrow> (error + 't ret) \<times> 't world" where
  "Opt_default this w =
     (if heap w this \<noteq> None then (Inl Invalid_use, w)
      else (Inr Unit, put this (Some (raw False)) w))"

definition Opt_NullOpt :: "addr \<Rightarrow> 't world \<Rightarrow> (error + 't ret) \<times> 't world" where
  "Opt_NullOpt this w =
     (if heap w this \<noteq> None then (Inl Invalid_use, w)
      else (Inr Unit, put this (Some (raw False)) w))"

text \<open>
  \<^verbatim>\<open>constexpr Opt<T>::Opt(const Opt& other) : hasValue(other.hasValue)
  { if (hasValue) new(&value) T(other.value); }\<close>
\<close>

definition Opt_copy :: "('t, 'u) T_ops \<Rightarrow> addr \<Rightarrow> addr \<Rightarrow> 't world \<Rightarrow> (error + 't ret) \<times> 't world" where
  "Opt_copy ops this other w =
     (case heap w other of
        None \<Rightarrow> (Inl Invalid_use, w)
      | Some oth \<Rightarrow>
          if heap w this \<noteq> None then (Inl Invalid_use, w)
          else
            let w1 = put this (Some (raw (hasValue oth))) w in
            if hasValue oth then
              (case valueT oth of
                 None \<Rightarrow> (Inl Invalid_use, w)
               | Some v \<Rightarrow>
                   (case T_copy ops v of
                      Inl e \<Rightarrow>
                        (Inl (Thrown e), emit (Call this Construct (Some e)) (put this None w1))
                    | Inr v' \<Rightarrow>
                        (Inr Unit, emit (Call this Construct None) (set_value this (Some v') w1))))
            else (Inr Unit, w1))"

text \<open>
  \<^verbatim>\<open>constexpr Opt<T>::Opt(Opt&& other) noexcept : hasValue(other.hasValue)
  { if (hasValue) { new(&value) T(std::move(other.value)); other.Destroy(); } }\<close>
  The constructor is \<open>noexcept\<close>: an exception of \<open>T(T&&)\<close> or of \<open>~T()\<close> that would
  leave it ends the program instead.
\<close>

definition Opt_move :: "('t, 'u) T_ops \<Rightarrow> addr \<Rightarrow> addr \<Rightarrow> 't world \<Rightarrow> (error + 't ret) \<times> 't world" where
  "Opt_move ops this other w =
     (case heap w other of
        None \<Rightarrow> (Inl Invalid_use, w)
      | Some oth \<Rightarrow>
          if heap w this \<noteq> None then (Inl Invalid_use, w)
          else
            let w1 = put this (Some (raw (hasValue oth))) w in
            if hasValue oth then
              (case valueT oth of
                 None \<Rightarrow> (Inl Invalid_use, w)
               | Some v \<Rightarrow>
                   (case T_move ops v of
                      (Inl e, src') \<Rightarrow>
                        (Inl Terminate,
                         emit (Call this Construct (Some e))
                           (put this None (set_value other (Some src') w1)))
                    | (Inr v', src') \<Rightarrow>
                        (case Destroy ops other
                                (emit (Call this Construct None)
                                   (set_value this (Some v') (set_value other (Some src') w1))) of
                           (Inl (Thrown e), w') \<Rightarrow> (Inl Terminate, w')
                         | (Inl err, w') \<Rightarrow> (Inl err, w')
                         | (Inr _, w') \<Rightarrow> (Inr Unit, w'))))
            else (Inr Unit, w1))"

text \<open>
  \<^verbatim>\<open>constexpr Opt<T>::Opt(const T& val) : hasValue(true) { new(&value) T(val); }\<close>
  \<^verbatim>\<open>constexpr Opt<T>::Opt(T&& val) : hasValue(true) { new(&value) T(std::move(val)); }\<close>
  The argument belongs to the caller; the state a move leaves it in is not part
  of the store.
\<close>

definition Opt_const_T :: "('t, 'u) T_ops \<Rightarrow> addr \<Rightarrow> 't \<Rightarrow> 't world \<Rightarrow> (error + 't ret) \<times> 't world" where
  "Opt_const_T ops this val w =
     (if heap w this \<noteq> None then (Inl Invalid_use, w)
      else
        let w1 = put this (Some (raw True)) w in
        (case T_copy ops val of
           Inl e \<Rightarrow> (Inl (Thrown e), emit (Call this Construct (Some e)) (put this None w1))
         | Inr v' \<Rightarrow> (Inr Unit, emit (Call this Construct None) (set_value this (Some v') w1))))"

definition Opt_rvalue_T :: "('t, 'u) T_ops \<Rightarrow> addr \<Rightarrow> 't \<Rightarrow> 't world \<Rightarrow> (error + 't ret) \<times> 't world" where
  "Opt_rvalue_T ops this val w =
     (if heap w this \<noteq> None then (Inl Invalid_use, w)
      else
        let w1 = put this (Some (raw True)) w in
        (case fst (T_move ops val) of
           Inl e \<Rightarrow> (Inl (Thrown e), emit (Call this Construct (Some e)) (put this None w1))
         | Inr v' \<Rightarrow> (Inr Unit, emit (Call this Construct None) (set_value this (Some v') w1))))"

subsection \<open>Presence query and access\<close>

text \<open>
  \<^verbatim>\<open>constexpr Opt<T>::operator bool() const { return hasValue; }\<close>
\<close>

definition operator_bool :: "addr \<Rightarrow> 't world \<Rightarrow> (error + 't ret) \<times> 't world" where
  "operator_bool this w =
     (case heap w this of
        None \<Rightarrow> (Inl Invalid_use, w)
      | Some self \<Rightarrow> (Inr (Bool (hasValue self)), w))"

text \<open>
  The four overloads of \<open>operator *\<close> have one body up to the cast of the result:
  \<^verbatim>\<open>{ assert(hasValue); return value; }\<close> for \<open>&\<close> and \<open>const &\<close>,
  \<^verbatim>\<open>{ assert(hasValue); return std::move(value); }\<close> for \<open>&&\<close> and \<open>const &&\<close>.
  \<open>std::move\<close> is a cast: none of them changes the container. The assertion is
  modelled as in a checked build.
\<close>

definition deref :: "addr \<Rightarrow> 't world \<Rightarrow> (error + 't ret) \<times> 't world" where
  "deref this w =
     (case heap w this of
        None \<Rightarrow> (Inl Invalid_use, w)
      | Some self \<Rightarrow>
          if \<not> hasValue self then (Inl Assertion_failed, w)
          else (case valueT self of
                  None \<Rightarrow> (Inl Invalid_use, w)
                | Some v \<Rightarrow> (Inr (Ref v), w)))"

definition operator_deref_lvalue :: "addr \<Rightarrow> 't world \<Rightarrow> (error + 't ret) \<times> 't world" where
  "operator_deref_lvalue this w = deref this w"

definition operator_deref_const_lvalue :: "addr \<Rightarrow> 't world \<Rightarrow> (error + 't ret) \<times> 't world" where
  "operator_deref_const_lvalue this w = deref this w"

definition operator_deref_rvalue :: "addr \<Rightarrow> 't world \<Rightarrow> (error + 't ret) \<times> 't world" where
  "operator_deref_rvalue this w = deref this w"

definition operator_deref_const_rvalue :: "addr \<Rightarrow> 't world \<Rightarrow> (error + 't ret) \<times> 't world" where
  "operator_deref_const_rvalue this w = deref this w"

text \<open>
  \<^verbatim>\<open>constexpr auto Opt<T>::operator -> () -> T* { return &value; }\<close>
  No check: the address of the slot is returned whatever it holds.
\<close>

definition operator_arrow :: "addr \<Rightarrow> 't world \<Rightarrow> (error + 't ret) \<times> 't world" where
  "operator_arrow this w =
     (case heap w this of
        None \<Rightarrow> (Inl Invalid_use, w)
      | Some self \<Rightarrow> (Inr (Ptr (valueT self)), w))"

subsection \<open>Assignment\<close>

text \<open>
  \<^verbatim>\<open>template<typename U> requires ...
  constexpr auto Opt<T>::operator = (U&& val) -> Opt&
  {
      if (hasValue) { value = std::forward<U>(val); }
      else { new(&value) T(std::forward<U>(val)); hasValue = true; }
      return *this;
  }\<close>
\<close>

definition operator_assign_U ::
  "('t, 'u) T_ops \<Rightarrow> addr \<Rightarrow> 'u \<Rightarrow> 't world \<Rightarrow> (error + 't ret) \<times> 't world" where
  "operator_assign_U ops this val w =
     (case heap w this of
        None \<Rightarrow> (Inl Invalid_use, w)
      | Some self \<Rightarrow>
          if hasValue self then
            (case valueT self of
               None \<Rightarrow> (Inl Invalid_use, w)
             | Some v \<Rightarrow>
                 (case T_conv_assign ops v val of
                    (Some e, v') \<Rightarrow>
                      (Inl (Thrown e), emit (Call this Assign (Some e)) (set_value this (Some v') w))
                  | (None, v') \<Rightarrow>
                      (Inr (Self this), emit (Call this Assign None) (set_value this (Some v') w))))
          else
            (case T_conv ops val of
               Inl e \<Rightarrow> (Inl (Thrown e), emit (Call this Construct (Some e)) w)
             | Inr v' \<Rightarrow>
                 (Inr (Self this),
                  set_hasValue this True
                    (emit (Call this Construct None) (set_value this (Some v') w)))))"

text \<open>
  \<^verbatim>\<open>constexpr auto Opt<T>::operator = (const Opt& other) -> Opt&
  {
      if (other)
      {
          if (hasValue) { value = other.value; }
          else { new(&value) T(other.value); hasValue = true; }
      }
      else { Destroy(); }
      return *this;
  }\<close>
\<close>

definition operator_assign_copy ::
  "('t, 'u) T_ops \<Rightarrow> addr \<Rightarrow> addr \<Rightarrow> 't world \<Rightarrow> (error + 't ret) \<times> 't world" where
  "operator_assign_copy ops this other w =
     (case (heap w this, heap w other) of
        (Some self, Some oth) \<Rightarrow>
          if hasValue oth then
            (case valueT oth of
               None \<Rightarrow> (Inl Invalid_use, w)
             | Some src \<Rightarrow>
                 if hasValue self then
                   (case valueT self of
                      None \<Rightarrow> (Inl Invalid_use, w)
                    | Some v \<Rightarrow>
                        (case T_assign ops v src of
                           (Some e, v') \<Rightarrow>
                             (Inl (Thrown e),
                              emit (Call this Assign (Some e)) (set_value this (Some v') w))
                         | (None, v') \<Rightarrow>
                             (Inr (Self this),
                              emit (Call this Assign None) (set_value this (Some v') w))))
                 else
                   (case T_copy ops src of
                      Inl e \<Rightarrow> (Inl (Thrown e), emit (Call this Construct (Some e)) w)
                    | Inr v' \<Rightarrow>
                        (Inr (Self this),
                         set_hasValue this True
                           (emit (Call this Construct None) (set_value this (Some v') w)))))
          else
            (case Destroy ops this w of
               (Inl err, w') \<Rightarrow> (Inl err, w')
             | (Inr _, w') \<Rightarrow> (Inr (Self this), w'))
      | _ \<Rightarrow> (Inl Invalid_use, w))"

text \<open>
  \<^verbatim>\<open>constexpr auto Opt<T>::operator = (Opt&& other) -> Opt&
  {
      if (other)
      {
          if (hasValue) { value = std::move(other.value); }
          else { new(&value) T(std::move(other.value)); hasValue = true; }
          other.Destroy();
      }
      else { Destroy(); }
      return *this;
  }\<close>
  When \<open>this\<close> and \<open>other\<close> are one container, the slot is both target and source
  of \<open>T\<close>'s move assignment; the model writes the target's state and then the
  source's.
\<close>

definition operator_assign_move ::
  "('t, 'u) T_ops \<Rightarrow> addr \<Rightarrow> addr \<Rightarrow> 't world \<Rightarrow> (error + 't ret) \<times> 't world" where
  "operator_assign_move ops this other w =
     (case (heap w this, heap w other) of
        (Some self, Some oth) \<Rightarrow>
          if hasValue oth then
            (case valueT oth of
               None \<Rightarrow> (Inl Invalid_use, w)
             | Some src \<Rightarrow>
                 (case
                    (if hasValue self then
                       (case valueT self of
                          None \<Rightarrow> (Inl Invalid_use, w)
                        | Some v \<Rightarrow>
                            (case T_move_assign ops v src of
                               (Some e, v', src') \<Rightarrow>
                                 (Inl (Thrown e),
                                  emit (Call this Assign (Some e))
                                    (set_value other (Some src') (set_value this (Some v') w)))
                             | (None, v', src') \<Rightarrow>
                                 (Inr (),
                                  emit (Call this Assign None)
                                    (set_value other (Some src') (set_value this (Some v') w)))))
                     else
                       (case T_move ops src of
                          (Inl e, src') \<Rightarrow>
                            (Inl (Thrown e),
                             emit (Call this Construct (Some e)) (set_value other (Some src') w))
                        | (Inr v', src') \<Rightarrow>
                            (Inr (),
                             set_hasValue this True
                               (emit (Call this Construct None)
                                  (set_value this (Some v') (set_value other (Some src') w))))))
                  of
                    (Inl err, w1) \<Rightarrow> (Inl err, w1)
                  | (Inr _, w1) \<Rightarrow>
                      (case Destroy ops other w1 of
                         (Inl err, w') \<Rightarrow> (Inl err, w')
                       | (Inr _, w') \<Rightarrow> (Inr (Self this), w'))))
          else
            (case Destroy ops this w of
               (Inl err, w') \<Rightarrow> (Inl err, w')
             | (Inr _, w') \<Rightarrow> (Inr (Self this), w'))
      | _ \<Rightarrow> (Inl Invalid_use, w))"

text \<open>
  \<^verbatim>\<open>constexpr auto Opt<T>::operator = (NullOpt) -> Opt& { Destroy(); return *this; }\<close>
  \<^verbatim>\<open>constexpr auto Opt<T>::operator = (std::initializer_list<std::nullptr_t>) -> Opt&
  { Destroy(); return *this; }\<close>
\<close>

definition operator_assign_NullOpt ::
  "('t, 'u) T_ops \<Rightarrow> addr \<Rightarrow> 't world \<Rightarrow> (error + 't ret) \<times> 't world" where
  "operator_assign_NullOpt ops this w =
     (case Destroy ops this w of
        (Inl err, w') \<Rightarrow> (Inl err, w')
      | (Inr _, w') \<Rightarrow> (Inr (Self this), w'))"

definition operator_assign_initializer_list ::
  "('t, 'u) T_ops \<Rightarrow> addr \<Rightarrow> 't world \<Rightarrow> (error + 't ret) \<times> 't world" where
  "operator_assign_initializer_list ops this w =
     (case Destroy ops this w of
        (Inl err, w') \<Rightarrow> (Inl err, w')
      | (Inr _, w') \<Rightarrow> (Inr (Self this), w'))"

subsection \<open>Sequences of operations\<close>

datatype ('t, 'u) op =
    Default_ctor addr
  | NullOpt_ctor addr
  | Copy_ctor addr addr          \<comment> \<open>\<open>this\<close>, \<open>other\<close>\<close>
  | Move_ctor addr addr
  | Const_T_ctor addr 't
  | Rvalue_T_ctor addr 't
  | To_bool addr
  | Deref_lvalue addr
  | Deref_const_lvalue addr
  | Deref_rvalue addr
  | Deref_const_rvalue addr
  | Arrow addr
  | Assign_U addr 'u
  | Assign_copy addr addr        \<comment> \<open>\<open>this\<close>, \<open>other\<close>\<close>
  | Assign_move addr addr
  | Assign_NullOpt addr
  | Assign_initializer_list addr
  | Dtor addr

fun step :: "('t, 'u) T_ops \<Rightarrow> ('t, 'u) op \<Rightarrow> 't world \<Rightarrow> (error + 't ret) \<times> 't world" where
  "step ops (Default_ctor a) w = Opt_default a w"
| "step ops (NullOpt_ctor a) w = Opt_NullOpt a w"
| "step ops (Copy_ctor a b) w = Opt_copy ops a b w"
| "step ops (Move_ctor a b) w = Opt_move ops a b w"
| "step ops (Const_T_ctor a v) w = Opt_const_T ops a v w"
| "step ops (Rvalue_T_ctor a v) w = Opt_rvalue_T ops a v w"
| "step ops (To_bool a) w = operator_bool a w"
| "step ops (Deref_lvalue a) w = operator_deref_lvalue a w"
| "step ops (Deref_const_lvalue a) w = operator_deref_const_lvalue a w"
| "step ops (Deref_rvalue a) w = operator_deref_rvalue a w"
| "step ops (Deref_const_rvalue a) w = operator_deref_const_rvalue a w"
| "step ops (Arrow a) w = operator_arrow a w"
| "step ops (Assign_U a u) w = operator_assign_U ops a u w"
| "step ops (Assign_copy a b) w = operator_assign_copy ops a b w"
| "step ops (Assign_move a b) w = operator_assign_move ops a b w"
| "step ops (Assign_NullOpt a) w = operator_assign_NullOpt ops a w"
| "step ops (Assign_initializer_list a) w = operator_assign_initializer_list ops a w"
| "step ops (Dtor a) w = Opt_dtor ops a w"

text \<open>
  A client runs operations one after another. An exception can be caught, after
  which the client goes on; \<open>std::terminate\<close>, a failed assertion and a use
  outside the language's rules end the run.
\<close>

fun fatal :: "error + 'a \<Rightarrow> bool" where
  "fatal (Inl (Thrown e)) = False"
| "fatal (Inl err) = True"
| "fatal (Inr x) = False"

fun run :: "('t, 'u) T_ops \<Rightarrow> ('t, 'u) op list \<Rightarrow> 't world
              \<Rightarrow> (error + 't ret) list \<times> 't world" where
  "run ops [] w = ([], w)"
| "run ops (x # xs) w =
     (case step ops x w of
        (r, w') \<Rightarrow>
          if fatal r then ([r], w')
          else (case run ops xs w' of (rs, w'') \<Rightarrow> (r # rs, w'')))"

definition empty_world :: "'t world" where
  "empty_world = \<lparr>heap = (\<lambda>a. None), trace = []\<rparr>"

subsection \<open>Element types used as concrete inputs\<close>

text \<open>
  \<open>int\<close> as the element type, as in \<open>Opt<int>\<close> of \<open>OptionalTest\<close>: no operation
  raises, a copy and a move both yield the value, a move leaves its source as it
  was.
\<close>

definition int_ops :: "(int, int) T_ops" where
  "int_ops =
     \<lparr>T_copy = (\<lambda>v. Inr v),
      T_move = (\<lambda>v. (Inr v, v)),
      T_conv = (\<lambda>u. Inr u),
      T_assign = (\<lambda>t s. (None, s)),
      T_move_assign = (\<lambda>t s. (None, s, s)),
      T_conv_assign = (\<lambda>t u. (None, u)),
      T_dtor = (\<lambda>v. None),
      Opt_dtor_noexcept = True\<rparr>"


text \<open>An element type whose move constructor raises, leaving its source as it was.\<close>

definition throwing_move_ops :: "(int, int) T_ops" where
  "throwing_move_ops = int_ops\<lparr>T_move := (\<lambda>v. (Inl (Exn 2), v))\<rparr>"

text \<open>An element type whose converting constructor and assignments raise.\<close>

definition throwing_conv_ops :: "(int, int) T_ops" where
  "throwing_conv_ops =
     int_ops\<lparr>T_conv := (\<lambda>u. Inl (Exn 3)),
             T_conv_assign := (\<lambda>t u. (Some (Exn 4), t))\<rparr>"

text \<open>An element type whose copy constructor raises.\<close>

definition throwing_copy_ops :: "(int, int) T_ops" where
  "throwing_copy_ops = int_ops\<lparr>T_copy := (\<lambda>v. Inl (Exn 5))\<rparr>"

subsection \<open>The lifecycle invariant\<close>

text \<open>
  The number of live \<open>T\<close> instances in the slot of the container at \<open>a\<close>, read off
  the trace: constructions that completed, less destructor calls.
\<close>

definition constructions :: "addr \<Rightarrow> event list \<Rightarrow> nat" where
  "constructions a tr = length (filter (\<lambda>ev. ev = Call a Construct None) tr)"

definition destructions :: "addr \<Rightarrow> event list \<Rightarrow> nat" where
  "destructions a tr =
     length (filter (\<lambda>ev. case ev of Call b k r \<Rightarrow> b = a \<and> k = Destruct) tr)"

definition live_instances :: "addr \<Rightarrow> event list \<Rightarrow> int" where
  "live_instances a tr = int (constructions a tr) - int (destructions a tr)"

text \<open>
  Invariant I1 at address \<open>a\<close>: the flag is set exactly when the slot holds a
  live \<open>T\<close>, and then exactly one instance constructed there has not been
  destroyed; with the flag clear, and where no container exists, none has.
\<close>

definition I1 :: "'t world \<Rightarrow> addr \<Rightarrow> bool" where
  "I1 w a =
     (case heap w a of
        None \<Rightarrow> live_instances a (trace w) = 0
      | Some c \<Rightarrow>
          (hasValue c \<longleftrightarrow> valueT c \<noteq> None) \<and>
          live_instances a (trace w) = (if hasValue c then 1 else 0))"

definition present_with :: "'t world \<Rightarrow> addr \<Rightarrow> 't \<Rightarrow> bool" where
  "present_with w a v = (heap w a = Some \<lparr>valueT = Some v, hasValue = True\<rparr>)"

definition absent :: "'t world \<Rightarrow> addr \<Rightarrow> bool" where
  "absent w a = (heap w a = Some \<lparr>valueT = None, hasValue = False\<rparr>)"

subsection \<open>Measures of the trace, and the operands of an operation\<close>

text \<open>The number of destructor calls that raised, and the exceptions raised, in order.\<close>

definition dtor_failures :: "event list \<Rightarrow> nat" where
  "dtor_failures tr =
     length (filter (\<lambda>ev. case ev of Call b k r \<Rightarrow> k = Destruct \<and> r \<noteq> None) tr)"

definition raised :: "event list \<Rightarrow> exn list" where
  "raised tr =
     concat (map (\<lambda>ev. case ev of Call b k r \<Rightarrow> (case r of None \<Rightarrow> [] | Some e \<Rightarrow> [e])) tr)"

text \<open>
  The containers an operation may modify: those it receives by non-const
  reference, \<open>this\<close> of a non-const member included. A copy reads its source
  through \<open>const Opt&\<close>; a move receives it as \<open>Opt&&\<close>.
\<close>

fun targets :: "('t, 'u) op \<Rightarrow> addr set" where
  "targets (Default_ctor a) = {a}"
| "targets (NullOpt_ctor a) = {a}"
| "targets (Copy_ctor a b) = {a}"
| "targets (Move_ctor a b) = {a, b}"
| "targets (Const_T_ctor a v) = {a}"
| "targets (Rvalue_T_ctor a v) = {a}"
| "targets (To_bool a) = {}"
| "targets (Deref_lvalue a) = {a}"
| "targets (Deref_const_lvalue a) = {}"
| "targets (Deref_rvalue a) = {a}"
| "targets (Deref_const_rvalue a) = {}"
| "targets (Arrow a) = {a}"
| "targets (Assign_U a u) = {a}"
| "targets (Assign_copy a b) = {a}"
| "targets (Assign_move a b) = {a, b}"
| "targets (Assign_NullOpt a) = {a}"
| "targets (Assign_initializer_list a) = {a}"
| "targets (Dtor a) = {a}"

text \<open>The address at which an operation constructs a container, if it is a constructor.\<close>

fun constructed :: "('t, 'u) op \<Rightarrow> addr set" where
  "constructed (Default_ctor a) = {a}"
| "constructed (NullOpt_ctor a) = {a}"
| "constructed (Copy_ctor a b) = {a}"
| "constructed (Move_ctor a b) = {a}"
| "constructed (Const_T_ctor a v) = {a}"
| "constructed (Rvalue_T_ctor a v) = {a}"
| "constructed x = {}"

text \<open>
  The operations with a non-throwing exception specification: the move
  constructor, declared \<open>noexcept\<close>, and the destructor where its implicit
  specification is non-throwing.
\<close>

fun nonthrowing :: "('t, 'u) T_ops \<Rightarrow> ('t, 'u) op \<Rightarrow> bool" where
  "nonthrowing ops (Move_ctor a b) = True"
| "nonthrowing ops (Dtor a) = Opt_dtor_noexcept ops"
| "nonthrowing ops x = False"

text \<open>
  What the caller of an operation sees, against what \<open>T\<close> raised during it
  (\<open>raised\<close> of the trace). Exception-neutral: the operation returns when nothing
  was raised, and exits by the exception \<open>e\<close> when \<open>e\<close> is the one exception that
  was raised; \<open>noexcept\<close>: the operation returns when nothing was raised and ends
  the program when something was. A failed assertion and an invalid use leave
  the state as it was.
\<close>

definition neutral_outcome :: "error + 'a \<Rightarrow> 't world \<Rightarrow> 't world \<Rightarrow> bool" where
  "neutral_outcome r w w' =
     (case r of
        Inr _ \<Rightarrow> raised (trace w') = raised (trace w)
      | Inl (Thrown e) \<Rightarrow> raised (trace w') = raised (trace w) @ [e]
      | Inl Terminate \<Rightarrow> False
      | Inl _ \<Rightarrow> w' = w)"

definition noexcept_outcome :: "error + 'a \<Rightarrow> 't world \<Rightarrow> 't world \<Rightarrow> bool" where
  "noexcept_outcome r w w' =
     (case r of
        Inr _ \<Rightarrow> raised (trace w') = raised (trace w)
      | Inl (Thrown e) \<Rightarrow> False
      | Inl Terminate \<Rightarrow> length (raised (trace w')) = Suc (length (raised (trace w)))
      | Inl _ \<Rightarrow> w' = w)"

section \<open>Properties\<close>

subsection \<open>Store primitives\<close>

lemma heap_emit [simp]: "heap (emit ev w) = heap w"
  by (simp add: emit_def)

lemma trace_emit [simp]: "trace (emit ev w) = trace w @ [ev]"
  by (simp add: emit_def)

lemma heap_put [simp]: "heap (put a x w) = (heap w)(a := x)"
  by (simp add: put_def)

lemma trace_put [simp]: "trace (put a x w) = trace w"
  by (simp add: put_def)

lemma heap_set_value [simp]:
  "heap (set_value a v w) = (heap w)(a := map_option (\<lambda>c. c\<lparr>valueT := v\<rparr>) (heap w a))"
  by (simp add: set_value_def)

lemma trace_set_value [simp]: "trace (set_value a v w) = trace w"
  by (simp add: set_value_def)

lemma heap_set_hasValue [simp]:
  "heap (set_hasValue a b w) = (heap w)(a := map_option (\<lambda>c. c\<lparr>hasValue := b\<rparr>) (heap w a))"
  by (simp add: set_hasValue_def)

lemma trace_set_hasValue [simp]: "trace (set_hasValue a b w) = trace w"
  by (simp add: set_hasValue_def)

lemma live_instances_Nil [simp]: "live_instances a [] = 0"
  by (simp add: live_instances_def constructions_def destructions_def)

lemma live_instances_snoc [simp]:
  "live_instances a (tr @ [Call b k r]) =
     live_instances a tr +
       (if b = a \<and> k = Construct \<and> r = None then 1
        else if b = a \<and> k = Destruct then - 1 else 0)"
  by (auto simp: live_instances_def constructions_def destructions_def)

text \<open>The definitions of the operations, for evaluation at concrete inputs.\<close>

lemmas op_defs = Opt_default_def Opt_NullOpt_def Opt_copy_def Opt_move_def Opt_const_T_def
  Opt_rvalue_T_def operator_bool_def deref_def operator_deref_lvalue_def
  operator_deref_const_lvalue_def operator_deref_rvalue_def operator_deref_const_rvalue_def
  operator_arrow_def operator_assign_U_def operator_assign_copy_def operator_assign_move_def
  operator_assign_NullOpt_def operator_assign_initializer_list_def Opt_dtor_def Destroy_def
  raw_def Let_def emit_def put_def set_value_def set_hasValue_def empty_world_def

subsection \<open>Trace measures\<close>

lemma dtor_failures_Nil [simp]: "dtor_failures [] = 0"
  by (simp add: dtor_failures_def)

lemma dtor_failures_append [simp]:
  "dtor_failures (tr @ tr') = dtor_failures tr + dtor_failures tr'"
  by (simp add: dtor_failures_def)

lemma dtor_failures_Cons [simp]:
  "dtor_failures (Call b k r # tr) =
     (if k = Destruct \<and> r \<noteq> None then 1 else 0) + dtor_failures tr"
  by (simp add: dtor_failures_def)

lemma raised_Nil [simp]: "raised [] = []"
  by (simp add: raised_def)

lemma raised_append [simp]: "raised (tr @ tr') = raised tr @ raised tr'"
  by (simp add: raised_def)

lemma raised_Cons [simp]:
  "raised (Call b k r # tr) = (case r of None \<Rightarrow> [] | Some e \<Rightarrow> [e]) @ raised tr"
  by (simp add: raised_def)

subsection \<open>Preservation of the lifecycle invariant\<close>

text \<open>
  Each operation keeps I1 at every address, given I1 at the addresses it works
  on. Where an operation calls \<open>Destroy\<close>, this needs that no call of \<open>~T()\<close> raised
  in it: because \<open>~T()\<close> never raises, or because the operation returned, or
  because the trace shows no new failure of a destructor.
\<close>

lemma I1_Destroy:
  assumes "I1 w a" and "I1 w this" and "Destroy ops this w = (r, w')"
    and "(\<forall>v. T_dtor ops v = None) \<or> \<not> isl r \<or>
         dtor_failures (trace w') = dtor_failures (trace w)"
  shows "I1 w' a"
  using assms
  by (auto simp: Destroy_def I1_def split: option.splits if_splits)

lemma I1_then_Destroy:
  assumes a1: "I1 w1 a" and o1: "I1 w1 other"
    and res: "(case Destroy ops other w1 of
                 (Inl err, w') \<Rightarrow> (Inl err, w')
               | (Inr _, w') \<Rightarrow> (Inr (Self this), w')) = (r, w')"
    and n: "dtor_failures (trace w1) = n"
    and ok: "(\<forall>v. T_dtor ops v = None) \<or> \<not> isl r \<or> dtor_failures (trace w') = n"
  shows "I1 w' a"
proof -
  obtain d w2 where d: "Destroy ops other w1 = (d, w2)" by (cases "Destroy ops other w1")
  from res d have "w' = w2" and "isl r = isl d" by (auto split: sum.splits)
  with I1_Destroy[OF a1 o1 d] ok n show ?thesis by simp
qed

lemma I1_Opt_default: "I1 w a \<Longrightarrow> I1 w this \<Longrightarrow> Opt_default this w = (r, w') \<Longrightarrow> I1 w' a"
  by (auto simp: Opt_default_def I1_def raw_def split: option.splits if_splits)

lemma I1_Opt_NullOpt: "I1 w a \<Longrightarrow> I1 w this \<Longrightarrow> Opt_NullOpt this w = (r, w') \<Longrightarrow> I1 w' a"
  by (auto simp: Opt_NullOpt_def I1_def raw_def split: option.splits if_splits)

lemma I1_Opt_const_T:
  "I1 w a \<Longrightarrow> I1 w this \<Longrightarrow> Opt_const_T ops this v w = (r, w') \<Longrightarrow> I1 w' a"
  by (auto simp: Opt_const_T_def I1_def raw_def Let_def split: option.splits if_splits sum.splits)

lemma I1_Opt_rvalue_T:
  "I1 w a \<Longrightarrow> I1 w this \<Longrightarrow> Opt_rvalue_T ops this v w = (r, w') \<Longrightarrow> I1 w' a"
  by (auto simp: Opt_rvalue_T_def I1_def raw_def Let_def split: option.splits if_splits sum.splits)

lemma operator_bool_world: "snd (operator_bool this w) = w"
  by (simp add: operator_bool_def split: option.splits)

lemma deref_world: "snd (deref this w) = w"
  by (simp add: deref_def split: option.splits)

lemma operator_arrow_world: "snd (operator_arrow this w) = w"
  by (simp add: operator_arrow_def split: option.splits)

lemma I1_Opt_dtor:
  assumes "I1 w a" and "I1 w this" and "Opt_dtor ops this w = (r, w')"
  shows "I1 w' a"
  using assms
  by (auto simp: Opt_dtor_def Destroy_def I1_def split: option.splits if_splits)

lemma I1_Opt_copy:
  assumes "I1 w a" and "I1 w this" and "I1 w other" and "Opt_copy ops this other w = (r, w')"
  shows "I1 w' a"
  using assms
  by (auto simp: Opt_copy_def I1_def raw_def Let_def split: option.splits if_splits sum.splits)

lemma I1_Opt_move:
  assumes "I1 w a" and "I1 w this" and "I1 w other" and "Opt_move ops this other w = (r, w')"
    and "(\<forall>v. T_dtor ops v = None) \<or> \<not> isl r \<or>
         dtor_failures (trace w') = dtor_failures (trace w)"
  shows "I1 w' a"
proof (cases "heap w other")
  case None
  with assms show ?thesis by (simp add: Opt_move_def)
next
  case (Some oth)
  note oth = this
  show ?thesis
  proof (cases "heap w this \<noteq> None \<or> \<not> hasValue oth")
    case True
    with assms(1-4) oth show ?thesis
      by (auto simp: Opt_move_def I1_def raw_def Let_def split: option.splits if_splits)
  next
    case False
    then have fresh: "heap w this = None" and hv: "hasValue oth" by auto
    from assms(3) oth hv obtain v where v: "valueT oth = Some v"
      by (auto simp: I1_def)
    obtain m src' where mv: "T_move ops v = (m, src')" by (cases "T_move ops v")
    have ne: "this \<noteq> other" using fresh oth by auto
    show ?thesis
    proof (cases m)
      case (Inl e)
      with assms(1-4) oth fresh hv v mv ne show ?thesis
        by (auto simp: Opt_move_def I1_def raw_def Let_def split: option.splits if_splits)
    next
      case (Inr v')
      let ?w1 = "emit (Call this Construct None)
                   (set_value this (Some v')
                      (set_value other (Some src') (put this (Some (raw True)) w)))"
      have a1: "I1 ?w1 a" using assms(1,2,3) oth fresh hv v ne
        by (auto simp: I1_def raw_def split: option.splits if_splits)
      have o1: "I1 ?w1 other" using assms(1,2,3) oth fresh hv v ne
        by (auto simp: I1_def raw_def split: option.splits if_splits)
      have n: "dtor_failures (trace ?w1) = dtor_failures (trace w)" by simp
      obtain d w2 where d: "Destroy ops other ?w1 = (d, w2)"
        by (cases "Destroy ops other ?w1")
      have rw: "w' = w2" and rd: "isl r = isl d"
        using assms(4) oth fresh hv v mv Inr d
        by (auto simp: Opt_move_def Let_def split: sum.splits error.splits)
      from I1_Destroy[OF a1 o1 d] assms(5) rd rw n show ?thesis by auto
    qed
  qed
qed

lemma I1_assign_U:
  assumes "I1 w a" and "I1 w this" and "operator_assign_U ops this u w = (r, w')"
  shows "I1 w' a"
  using assms
  by (auto simp: operator_assign_U_def I1_def
           split: option.splits if_splits sum.splits prod.splits)

lemma I1_assign_copy:
  assumes "I1 w a" and "I1 w this" and "I1 w other"
    and "operator_assign_copy ops this other w = (r, w')"
    and "(\<forall>v. T_dtor ops v = None) \<or> \<not> isl r \<or>
         dtor_failures (trace w') = dtor_failures (trace w)"
  shows "I1 w' a"
proof (cases "\<exists>self oth. heap w this = Some self \<and> heap w other = Some oth \<and> \<not> hasValue oth")
  case True
  with assms(4) have
    "(case Destroy ops this w of
        (Inl err, w') \<Rightarrow> (Inl err, w')
      | (Inr _, w') \<Rightarrow> (Inr (Self this), w')) = (r, w')"
    by (auto simp: operator_assign_copy_def)
  from I1_then_Destroy[OF assms(1) assms(2) this refl assms(5)] show ?thesis .
next
  case False
  with assms(1-4) show ?thesis
    by (auto simp: operator_assign_copy_def I1_def
             split: option.splits if_splits sum.splits prod.splits)
qed

lemma I1_assign_move:
  assumes "I1 w a" and "I1 w this" and "I1 w other"
    and "operator_assign_move ops this other w = (r, w')"
    and "(\<forall>v. T_dtor ops v = None) \<or> \<not> isl r \<or>
         dtor_failures (trace w') = dtor_failures (trace w)"
  shows "I1 w' a"
proof (cases "heap w this")
  case None
  with assms show ?thesis by (simp add: operator_assign_move_def)
next
  case (Some self)
  note self = this
  show ?thesis
  proof (cases "heap w other")
    case None
    with assms self show ?thesis by (simp add: operator_assign_move_def)
  next
    case (Some oth)
    note oth = this
    show ?thesis
    proof (cases "hasValue oth")
      case False
      with assms(4) self oth have
        "(case Destroy ops this w of
            (Inl err, w') \<Rightarrow> (Inl err, w')
          | (Inr _, w') \<Rightarrow> (Inr (Self this), w')) = (r, w')"
        by (simp add: operator_assign_move_def)
      from I1_then_Destroy[OF assms(1) assms(2) this refl assms(5)] show ?thesis .
    next
      case True
      note hv = this
      from assms(3) oth hv obtain src where src: "valueT oth = Some src"
        by (auto simp: I1_def)
      show ?thesis
      proof (cases "hasValue self")
        case True
        from assms(2) self True obtain v where v: "valueT self = Some v"
          by (auto simp: I1_def)
        obtain eo v' src' where ma: "T_move_assign ops v src = (eo, v', src')"
          by (cases "T_move_assign ops v src")
        let ?w1 = "emit (Call this Assign eo)
                     (set_value other (Some src') (set_value this (Some v') w))"
        have a1: "I1 ?w1 a" using assms(1,2,3) self oth hv src True v
          by (auto simp: I1_def split: option.splits if_splits)
        have o1: "I1 ?w1 other" using assms(1,2,3) self oth hv src True v
          by (auto simp: I1_def split: option.splits if_splits)
        have n: "dtor_failures (trace ?w1) = dtor_failures (trace w)" by simp
        show ?thesis
        proof (cases eo)
          case (Some e)
          with assms(4) self oth hv src True v ma have "w' = ?w1"
            by (simp add: operator_assign_move_def)
          with a1 show ?thesis by simp
        next
          case None
          with assms(4) self oth hv src True v ma have
            "(case Destroy ops other ?w1 of
                (Inl err, w') \<Rightarrow> (Inl err, w')
              | (Inr _, w') \<Rightarrow> (Inr (Self this), w')) = (r, w')"
            by (simp add: operator_assign_move_def)
          from I1_then_Destroy[OF a1 o1 this n assms(5)] show ?thesis .
        qed
      next
        case False
        then have ne: "this \<noteq> other" using self oth hv by auto
        obtain m src' where mv: "T_move ops src = (m, src')" by (cases "T_move ops src")
        show ?thesis
        proof (cases m)
          case (Inl e)
          with assms(4) self oth hv src False mv
          have "w' = emit (Call this Construct (Some e)) (set_value other (Some src') w)"
            by (simp add: operator_assign_move_def)
          with assms(1,2,3) self oth hv src False ne show ?thesis
            by (auto simp: I1_def split: option.splits if_splits)
        next
          case (Inr v')
          let ?w1 = "set_hasValue this True (emit (Call this Construct None)
                       (set_value this (Some v') (set_value other (Some src') w)))"
          have a1: "I1 ?w1 a" using assms(1,2,3) self oth hv src False ne
            by (auto simp: I1_def split: option.splits if_splits)
          have o1: "I1 ?w1 other" using assms(1,2,3) self oth hv src False ne
            by (auto simp: I1_def split: option.splits if_splits)
          have n: "dtor_failures (trace ?w1) = dtor_failures (trace w)" by simp
          from assms(4) self oth hv src False mv Inr have
            "(case Destroy ops other ?w1 of
                (Inl err, w') \<Rightarrow> (Inl err, w')
              | (Inr _, w') \<Rightarrow> (Inr (Self this), w')) = (r, w')"
            by (simp add: operator_assign_move_def)
          from I1_then_Destroy[OF a1 o1 this n assms(5)] show ?thesis .
        qed
      qed
    qed
  qed
qed

lemma I1_assign_NullOpt:
  assumes "I1 w a" and "I1 w this" and "operator_assign_NullOpt ops this w = (r, w')"
    and "(\<forall>v. T_dtor ops v = None) \<or> \<not> isl r \<or>
         dtor_failures (trace w') = dtor_failures (trace w)"
  shows "I1 w' a"
  using I1_then_Destroy[OF assms(1,2) _ refl assms(4)] assms(3)
  by (simp add: operator_assign_NullOpt_def)

lemma I1_assign_initializer_list:
  assumes "I1 w a" and "I1 w this" and "operator_assign_initializer_list ops this w = (r, w')"
    and "(\<forall>v. T_dtor ops v = None) \<or> \<not> isl r \<or>
         dtor_failures (trace w') = dtor_failures (trace w)"
  shows "I1 w' a"
  using I1_then_Destroy[OF assms(1,2) _ refl assms(4)] assms(3)
  by (simp add: operator_assign_initializer_list_def)

lemma I1_step:
  assumes inv: "\<forall>a. I1 w a" and st: "step ops x w = (r, w')"
    and ok: "(\<forall>v. T_dtor ops v = None) \<or> \<not> isl r \<or>
             dtor_failures (trace w') = dtor_failures (trace w)"
  shows "I1 w' a"
proof (cases x)
  case (Default_ctor this) with inv st show ?thesis by (auto intro: I1_Opt_default)
next
  case (NullOpt_ctor this) with inv st show ?thesis by (auto intro: I1_Opt_NullOpt)
next
  case (Copy_ctor this other) with inv st show ?thesis by (auto intro: I1_Opt_copy)
next
  case (Move_ctor this other)
  with st have "Opt_move ops this other w = (r, w')" by simp
  from I1_Opt_move[OF _ _ _ this ok] inv show ?thesis by blast
next
  case (Const_T_ctor this v) with inv st show ?thesis by (auto intro: I1_Opt_const_T)
next
  case (Rvalue_T_ctor this v) with inv st show ?thesis by (auto intro: I1_Opt_rvalue_T)
next
  case (To_bool this) with inv st operator_bool_world[of this w] show ?thesis by auto
next
  case (Deref_lvalue this) with inv st deref_world[of this w] show ?thesis
    by (auto simp: operator_deref_lvalue_def)
next
  case (Deref_const_lvalue this) with inv st deref_world[of this w] show ?thesis
    by (auto simp: operator_deref_const_lvalue_def)
next
  case (Deref_rvalue this) with inv st deref_world[of this w] show ?thesis
    by (auto simp: operator_deref_rvalue_def)
next
  case (Deref_const_rvalue this) with inv st deref_world[of this w] show ?thesis
    by (auto simp: operator_deref_const_rvalue_def)
next
  case (Arrow this) with inv st operator_arrow_world[of this w] show ?thesis by auto
next
  case (Assign_U this u) with inv st show ?thesis by (auto intro: I1_assign_U)
next
  case (Assign_copy this other)
  with st have "operator_assign_copy ops this other w = (r, w')" by simp
  from I1_assign_copy[OF _ _ _ this ok] inv show ?thesis by blast
next
  case (Assign_move this other)
  with st have "operator_assign_move ops this other w = (r, w')" by simp
  from I1_assign_move[OF _ _ _ this ok] inv show ?thesis by blast
next
  case (Assign_NullOpt this)
  with st have "operator_assign_NullOpt ops this w = (r, w')" by simp
  from I1_assign_NullOpt[OF _ _ this ok] inv show ?thesis by blast
next
  case (Assign_initializer_list this)
  with st have "operator_assign_initializer_list ops this w = (r, w')" by simp
  from I1_assign_initializer_list[OF _ _ this ok] inv show ?thesis by blast
next
  case (Dtor this) with inv st show ?thesis by (auto intro: I1_Opt_dtor)
qed

lemma I1_empty_world: "I1 empty_world a"
  by (simp add: I1_def empty_world_def)

subsection \<open>The trace only grows\<close>











subsection \<open>Frame: an operation leaves the containers it does not target\<close>

lemma heap_Destroy_frame:
  "Destroy ops this w = (r, w') \<Longrightarrow> a \<noteq> this \<Longrightarrow> heap w' a = heap w a"
  by (auto simp: Destroy_def split: option.splits if_splits)

lemma heap_Opt_move_frame:
  "a \<noteq> this \<Longrightarrow> a \<noteq> other \<Longrightarrow> heap (snd (Opt_move ops this other w)) a = heap w a"
  by (auto simp: Opt_move_def Let_def split: option.splits sum.splits prod.splits error.splits
           dest!: heap_Destroy_frame[where a = a])

lemma heap_assign_move_frame:
  "a \<noteq> this \<Longrightarrow> a \<noteq> other \<Longrightarrow>
   heap (snd (operator_assign_move ops this other w)) a = heap w a"
  by (auto simp: operator_assign_move_def split: option.splits sum.splits prod.splits
           dest!: heap_Destroy_frame[where a = a])

lemma heap_assign_copy_frame:
  "a \<noteq> this \<Longrightarrow> heap (snd (operator_assign_copy ops this other w)) a = heap w a"
  by (auto simp: operator_assign_copy_def split: option.splits sum.splits prod.splits
           dest!: heap_Destroy_frame[where a = a])

lemma heap_assign_NullOpt_frame:
  "a \<noteq> this \<Longrightarrow> heap (snd (operator_assign_NullOpt ops this w)) a = heap w a"
  by (auto simp: operator_assign_NullOpt_def split: sum.splits prod.splits
           dest!: heap_Destroy_frame[where a = a])

lemma heap_assign_initializer_list_frame:
  "a \<noteq> this \<Longrightarrow> heap (snd (operator_assign_initializer_list ops this w)) a = heap w a"
  by (auto simp: operator_assign_initializer_list_def split: sum.splits prod.splits
           dest!: heap_Destroy_frame[where a = a])

lemma heap_Opt_dtor_frame:
  "a \<noteq> this \<Longrightarrow> heap (snd (Opt_dtor ops this w)) a = heap w a"
  by (auto simp: Opt_dtor_def split: sum.splits prod.splits error.splits
           dest!: heap_Destroy_frame[where a = a])

lemma heap_step_frame:
  assumes "a \<notin> targets x"
  shows "heap (snd (step ops x w)) a = heap w a"
proof (cases x)
  case (Move_ctor this other) with assms show ?thesis by (simp add: heap_Opt_move_frame)
next
  case (Assign_move this other) with assms show ?thesis by (simp add: heap_assign_move_frame)
next
  case (Assign_copy this other) with assms show ?thesis by (simp add: heap_assign_copy_frame)
next
  case (Assign_NullOpt this) with assms show ?thesis by (simp add: heap_assign_NullOpt_frame)
next
  case (Assign_initializer_list this)
  with assms show ?thesis by (simp add: heap_assign_initializer_list_frame)
next
  case (Dtor this) with assms show ?thesis by (simp add: heap_Opt_dtor_frame)
next
  case (Copy_ctor this other)
  with assms show ?thesis
    by (auto simp: Opt_copy_def Let_def split: option.splits sum.splits)
next
  case (Assign_U this u)
  with assms show ?thesis
    by (auto simp: operator_assign_U_def split: option.splits sum.splits prod.splits)
next
  case (Default_ctor this) with assms show ?thesis by (simp add: Opt_default_def)
next
  case (NullOpt_ctor this) with assms show ?thesis by (simp add: Opt_NullOpt_def)
next
  case (Const_T_ctor this v)
  with assms show ?thesis by (auto simp: Opt_const_T_def Let_def split: sum.splits)
next
  case (Rvalue_T_ctor this v)
  with assms show ?thesis by (auto simp: Opt_rvalue_T_def Let_def split: sum.splits)
next
  case (To_bool this) then show ?thesis by (simp add: operator_bool_world)
next
  case (Deref_lvalue this)
  then show ?thesis by (simp add: operator_deref_lvalue_def deref_world)
next
  case (Deref_const_lvalue this)
  then show ?thesis by (simp add: operator_deref_const_lvalue_def deref_world)
next
  case (Deref_rvalue this)
  then show ?thesis by (simp add: operator_deref_rvalue_def deref_world)
next
  case (Deref_const_rvalue this)
  then show ?thesis by (simp add: operator_deref_const_rvalue_def deref_world)
next
  case (Arrow this) then show ?thesis by (simp add: operator_arrow_world)
qed

lemma heap_run_frame:
  assumes "\<forall>x \<in> set xs. a \<notin> targets x"
  shows "heap (snd (run ops xs w)) a = heap w a"
  using assms
proof (induction xs arbitrary: w)
  case Nil
  show ?case by simp
next
  case (Cons x xs)
  obtain r w' where st: "step ops x w = (r, w')" by (cases "step ops x w")
  obtain rs w'' where rn: "run ops xs w' = (rs, w'')" by (cases "run ops xs w'")
  from Cons.prems heap_step_frame[of a x ops w] st have h1: "heap w' a = heap w a" by simp
  from Cons.prems Cons.IH[of w'] rn have h2: "heap w'' a = heap w' a" by simp
  from st rn h1 h2 show ?case by simp
qed

subsection \<open>What the caller sees of the failures of \<open>T\<close>\<close>

lemma neutral_Destroy:
  "Destroy ops this w = (r, w') \<Longrightarrow> neutral_outcome r w w'"
  by (auto simp: Destroy_def neutral_outcome_def split: option.splits if_splits)

lemma Destroy_errors:
  "Destroy ops this w = (Inl err, w') \<Longrightarrow> err = Invalid_use \<or> (\<exists>e. err = Thrown e)"
  by (auto simp: Destroy_def split: option.splits if_splits)

lemma neutral_then_Destroy:
  assumes res: "(case Destroy ops other w1 of
                   (Inl err, w') \<Rightarrow> (Inl err, w')
                 | (Inr _, w') \<Rightarrow> (Inr (Self this), w')) = (r, w')"
    and n: "raised (trace w1) = raised (trace w)"
    and inv: "r = Inl Invalid_use \<or> r = Inl Assertion_failed \<Longrightarrow> w1 = w"
  shows "neutral_outcome r w w'"
proof -
  obtain d w2 where d: "Destroy ops other w1 = (d, w2)" by (cases "Destroy ops other w1")
  from neutral_Destroy[OF d] res d n inv show ?thesis
    by (auto simp: neutral_outcome_def split: sum.splits error.splits)
qed

lemma neutral_assign_NullOpt:
  "operator_assign_NullOpt ops this w = (r, w') \<Longrightarrow> neutral_outcome r w w'"
  by (rule neutral_then_Destroy[where ?w1.0 = w and other = this and this = this and ops = ops])
     (simp_all add: operator_assign_NullOpt_def)

lemma neutral_assign_initializer_list:
  "operator_assign_initializer_list ops this w = (r, w') \<Longrightarrow> neutral_outcome r w w'"
  by (rule neutral_then_Destroy[where ?w1.0 = w and other = this and this = this and ops = ops])
     (simp_all add: operator_assign_initializer_list_def)

lemma outcome_Opt_dtor:
  "Opt_dtor ops this w = (r, w') \<Longrightarrow>
   (if Opt_dtor_noexcept ops then noexcept_outcome r w w' else neutral_outcome r w w')"
  by (auto simp: Opt_dtor_def Destroy_def neutral_outcome_def noexcept_outcome_def
           split: option.splits if_splits)

lemma neutral_assign_U:
  "operator_assign_U ops this u w = (r, w') \<Longrightarrow> neutral_outcome r w w'"
  by (auto simp: operator_assign_U_def neutral_outcome_def
           split: option.splits if_splits sum.splits prod.splits)

lemma neutral_Opt_copy: "Opt_copy ops this other w = (r, w') \<Longrightarrow> neutral_outcome r w w'"
  by (auto simp: Opt_copy_def neutral_outcome_def Let_def
           split: option.splits if_splits sum.splits)

lemma neutral_Opt_const_T: "Opt_const_T ops this v w = (r, w') \<Longrightarrow> neutral_outcome r w w'"
  by (auto simp: Opt_const_T_def neutral_outcome_def Let_def split: if_splits sum.splits)

lemma neutral_Opt_rvalue_T: "Opt_rvalue_T ops this v w = (r, w') \<Longrightarrow> neutral_outcome r w w'"
  by (auto simp: Opt_rvalue_T_def neutral_outcome_def Let_def split: if_splits sum.splits)

lemma neutral_deref: "deref this w = (r, w') \<Longrightarrow> neutral_outcome r w w'"
  by (auto simp: deref_def neutral_outcome_def split: option.splits if_splits)

lemma neutral_assign_copy:
  assumes "operator_assign_copy ops this other w = (r, w')"
  shows "neutral_outcome r w w'"
proof (cases "\<exists>self oth. heap w this = Some self \<and> heap w other = Some oth \<and> \<not> hasValue oth")
  case True
  with assms have
    "(case Destroy ops this w of
        (Inl err, w') \<Rightarrow> (Inl err, w')
      | (Inr _, w') \<Rightarrow> (Inr (Self this), w')) = (r, w')"
    by (auto simp: operator_assign_copy_def)
  then show ?thesis by (rule neutral_then_Destroy) simp_all
next
  case False
  with assms show ?thesis
    by (auto simp: operator_assign_copy_def neutral_outcome_def
             split: option.splits if_splits sum.splits prod.splits)
qed

lemma neutral_assign_move:
  assumes "operator_assign_move ops this other w = (r, w')"
  shows "neutral_outcome r w w'"
proof (cases "\<exists>self oth. heap w this = Some self \<and> heap w other = Some oth")
  case False
  with assms show ?thesis
    by (auto simp: operator_assign_move_def neutral_outcome_def split: option.splits)
next
  case True
  then obtain self oth where self: "heap w this = Some self" and oth: "heap w other = Some oth"
    by blast
  show ?thesis
  proof (cases "hasValue oth")
    case False
    with assms self oth have
      "(case Destroy ops this w of
          (Inl err, w') \<Rightarrow> (Inl err, w')
        | (Inr _, w') \<Rightarrow> (Inr (Self this), w')) = (r, w')"
      by (simp add: operator_assign_move_def)
    then show ?thesis by (rule neutral_then_Destroy) simp_all
  next
    case True
    note hv = this
    show ?thesis
    proof (cases "valueT oth")
      case None
      with assms self oth hv show ?thesis
        by (auto simp: operator_assign_move_def neutral_outcome_def)
    next
      case (Some src)
      note src = this
      show ?thesis
      proof (cases "hasValue self")
        case True
        show ?thesis
        proof (cases "valueT self")
          case None
          with assms self oth hv src True show ?thesis
            by (auto simp: operator_assign_move_def neutral_outcome_def)
        next
          case (Some v)
          obtain eo v' src' where ma: "T_move_assign ops v src = (eo, v', src')"
            by (cases "T_move_assign ops v src")
          show ?thesis
          proof (cases eo)
            case (Some e)
            with assms self oth hv src True \<open>valueT self = Some v\<close> ma show ?thesis
              by (auto simp: operator_assign_move_def neutral_outcome_def)
          next
            case None
            let ?w1 = "emit (Call this Assign None)
                         (set_value other (Some src') (set_value this (Some v') w))"
            from None assms self oth hv src True \<open>valueT self = Some v\<close> ma have res:
              "(case Destroy ops other ?w1 of
                  (Inl err, w') \<Rightarrow> (Inl err, w')
                | (Inr _, w') \<Rightarrow> (Inr (Self this), w')) = (r, w')"
              by (simp add: operator_assign_move_def)
            obtain d w2 where d: "Destroy ops other ?w1 = (d, w2)"
              by (cases "Destroy ops other ?w1")
            have "d \<noteq> Inl Invalid_use"
              using d oth self
              by (auto simp: Destroy_def split: option.splits if_splits)
            with neutral_Destroy[OF d] Destroy_errors[of ops other ?w1 _ w2] res d
            show ?thesis
              by (auto simp: neutral_outcome_def split: sum.splits error.splits)
          qed
        qed
      next
        case False
        then have ne: "this \<noteq> other" using self oth hv by auto
        obtain m src' where mv: "T_move ops src = (m, src')" by (cases "T_move ops src")
        show ?thesis
        proof (cases m)
          case (Inl e)
          with assms self oth hv src False mv show ?thesis
            by (auto simp: operator_assign_move_def neutral_outcome_def)
        next
          case (Inr v')
          let ?w1 = "set_hasValue this True (emit (Call this Construct None)
                       (set_value this (Some v') (set_value other (Some src') w)))"
          from assms self oth hv src False mv Inr have res:
            "(case Destroy ops other ?w1 of
                (Inl err, w') \<Rightarrow> (Inl err, w')
              | (Inr _, w') \<Rightarrow> (Inr (Self this), w')) = (r, w')"
            by (simp add: operator_assign_move_def)
          obtain d w2 where d: "Destroy ops other ?w1 = (d, w2)"
            by (cases "Destroy ops other ?w1")
          have "d \<noteq> Inl Invalid_use"
            using d oth self ne
            by (auto simp: Destroy_def split: option.splits if_splits)
          with neutral_Destroy[OF d] Destroy_errors[of ops other ?w1 _ w2] res d
          show ?thesis
            by (auto simp: neutral_outcome_def split: sum.splits error.splits)
        qed
      qed
    qed
  qed
qed

lemma noexcept_Opt_move:
  assumes "Opt_move ops this other w = (r, w')"
  shows "noexcept_outcome r w w'"
proof (cases "\<exists>oth v. heap w other = Some oth \<and> heap w this = None \<and> hasValue oth
                 \<and> valueT oth = Some v \<and> \<not> isl (fst (T_move ops v))")
  case False
  with assms show ?thesis
    by (auto simp: Opt_move_def noexcept_outcome_def Let_def
             split: option.splits if_splits sum.splits prod.splits)
next
  case True
  then obtain oth v where oth: "heap w other = Some oth" and fresh: "heap w this = None"
      and hv: "hasValue oth" and v: "valueT oth = Some v" and nl: "\<not> isl (fst (T_move ops v))"
    by blast
  obtain m src' where mv0: "T_move ops v = (m, src')" by (cases "T_move ops v")
  with nl obtain v' where mv: "T_move ops v = (Inr v', src')" by (cases m) auto
  have ne: "this \<noteq> other" using oth fresh by auto
  let ?w1 = "emit (Call this Construct None)
               (set_value this (Some v')
                  (set_value other (Some src') (put this (Some (raw True)) w)))"
  obtain d w2 where d: "Destroy ops other ?w1 = (d, w2)" by (cases "Destroy ops other ?w1")
  have ni: "d \<noteq> Inl Invalid_use"
    using d oth ne by (auto simp: Destroy_def raw_def split: option.splits if_splits)
  from assms oth fresh hv v mv d have
    "(r, w') = (case d of Inl (Thrown e) \<Rightarrow> (Inl Terminate, w2) | Inl err \<Rightarrow> (Inl err, w2)
                | Inr _ \<Rightarrow> (Inr Unit, w2))"
    by (simp add: Opt_move_def Let_def split: sum.splits error.splits)
  with neutral_Destroy[OF d] Destroy_errors[of ops other ?w1 _ w2] d ni show ?thesis
    by (auto simp: neutral_outcome_def noexcept_outcome_def split: sum.splits error.splits)
qed

section \<open>The claims\<close>

subsection \<open>C1: the presence flag agrees with the liveness of the slot\<close>




subsection \<open>C2: assignment of a value\<close>

text \<open>
  C2. \<open>operator = (U&& val)\<close> on an absent container constructs a \<open>T\<close> from \<open>val\<close> in
  the slot and sets the flag: the container then holds what \<open>T(U&&)\<close> made, and
  the one call of \<open>T\<close> is that construction. On a container present with \<open>v\<close> it
  leaves the flag set and the slot holding what \<open>T\<close>'s assignment made of \<open>v\<close> and
  \<open>val\<close>, and the one call of \<open>T\<close> is that assignment: no destructor, no
  constructor. In both cases the operation returns \<open>*this\<close> and changes no other
  container.
\<close>

theorem assign_value_constructs_or_assigns_in_place:
  "(absent w this \<and> T_conv ops val = Inr v' \<longrightarrow>
      operator_assign_U ops this val w =
        (Inr (Self this),
         w\<lparr>heap := (heap w)(this \<mapsto> \<lparr>valueT = Some v', hasValue = True\<rparr>),
           trace := trace w @ [Call this Construct None]\<rparr>)) \<and>
   (present_with w this v \<and> T_conv_assign ops v val = (None, v') \<longrightarrow>
      operator_assign_U ops this val w =
        (Inr (Self this),
         w\<lparr>heap := (heap w)(this \<mapsto> \<lparr>valueT = Some v', hasValue = True\<rparr>),
           trace := trace w @ [Call this Assign None]\<rparr>))"
  by (auto simp: operator_assign_U_def emit_def put_def set_value_def set_hasValue_def
                 absent_def present_with_def)

text \<open>
  C2, witness: \<open>Opt<int> o1; o1 = 10;\<close> and then \<open>o1 = 2\<close>.
\<close>

theorem assign_value_constructs_or_assigns_in_place_witness:
  "absent (snd (Opt_default 0 (empty_world :: int world))) 0 \<and>
   T_conv int_ops 10 = Inr 10 \<and>
   present_with (snd (operator_assign_U int_ops 0 10 (snd (Opt_default 0 empty_world)))) 0 10 \<and>
   trace (snd (operator_assign_U int_ops 0 10 (snd (Opt_default 0 empty_world))))
     = [Call 0 Construct None] \<and>
   T_conv_assign int_ops 10 2 = (None, 2) \<and>
   trace (snd (operator_assign_U int_ops 0 2
                 (snd (operator_assign_U int_ops 0 10 (snd (Opt_default 0 empty_world))))))
     = [Call 0 Construct None, Call 0 Assign None] \<and>
   present_with (snd (operator_assign_U int_ops 0 2
                 (snd (operator_assign_U int_ops 0 10 (snd (Opt_default 0 empty_world)))))) 0 2"
proof -
  let ?w0 = "snd (Opt_default 0 (empty_world :: int world))"
  let ?w1 = "snd (operator_assign_U int_ops 0 10 ?w0)"
  have a: "absent ?w0 0" by (simp add: Opt_default_def empty_world_def raw_def absent_def)
  have c: "T_conv int_ops 10 = Inr 10" by (simp add: int_ops_def)
  from assign_value_constructs_or_assigns_in_place[where w = "?w0" and this = 0 and ops = int_ops and val = 10 and v' = 10] a c
  have s1: "operator_assign_U int_ops 0 10 ?w0 =
              (Inr (Self 0),
               ?w0\<lparr>heap := (heap ?w0)(0 \<mapsto> \<lparr>valueT = Some 10, hasValue = True\<rparr>),
                   trace := trace ?w0 @ [Call 0 Construct None]\<rparr>)"
    by blast
  have p: "present_with ?w1 0 10" unfolding s1 by (simp add: present_with_def)
  have t1: "trace ?w1 = [Call 0 Construct None]"
    unfolding s1 by (simp add: Opt_default_def empty_world_def)
  have c2: "T_conv_assign int_ops 10 2 = (None, 2)" by (simp add: int_ops_def)
  from assign_value_constructs_or_assigns_in_place[where w = "?w1" and this = 0 and ops = int_ops and val = 2 and v = 10 and v' = 2] p c2
  have s2: "operator_assign_U int_ops 0 2 ?w1 =
              (Inr (Self 0),
               ?w1\<lparr>heap := (heap ?w1)(0 \<mapsto> \<lparr>valueT = Some 2, hasValue = True\<rparr>),
                   trace := trace ?w1 @ [Call 0 Assign None]\<rparr>)"
    by blast
  have p2: "present_with (snd (operator_assign_U int_ops 0 2 ?w1)) 0 2"
    unfolding s2 by (simp add: present_with_def)
  have t2: "trace (snd (operator_assign_U int_ops 0 2 ?w1))
              = [Call 0 Construct None, Call 0 Assign None]"
    unfolding s2 using t1 by simp
  from a c p t1 c2 t2 p2 show ?thesis by blast
qed

subsection \<open>C3: a move empties its source\<close>



text \<open>
  Where source and destination are one container (\<open>x = std::move(x)\<close>, which the
  source does not special-case), the slot is assigned from itself and then
  destroyed by \<open>other.Destroy()\<close>: the container ends absent.
\<close>

lemma self_move_assignment_empties:
  assumes "present_with w this v" and "T_move_assign ops v v = (None, t', s')"
    and "T_dtor ops s' = None"
  shows "operator_assign_move ops this this w =
           (Inr (Self this),
            w\<lparr>heap := (heap w)(this \<mapsto> \<lparr>valueT = None, hasValue = False\<rparr>),
              trace := trace w @ [Call this Assign None, Call this Destruct None]\<rparr>)"
  using assms
  by (auto simp: operator_assign_move_def Destroy_def emit_def put_def set_value_def
                 set_hasValue_def present_with_def)


subsection \<open>C4: assignment of the absent marker\<close>






subsection \<open>C5: a failed construction or assignment leaves the flag consistent\<close>

lemma failed_constructor_leaves_no_container:
  assumes "step ops x w = (Inl err, w')"
    and "dtor_failures (trace w') = dtor_failures (trace w)"
    and "c \<in> constructed x"
  shows "heap w' c = heap w c"
proof (cases x)
  case (Default_ctor this)
  with assms show ?thesis by (auto simp: Opt_default_def split: if_splits)
next
  case (NullOpt_ctor this)
  with assms show ?thesis by (auto simp: Opt_NullOpt_def split: if_splits)
next
  case (Copy_ctor this other)
  with assms show ?thesis
    by (auto simp: Opt_copy_def Let_def split: option.splits if_splits sum.splits)
next
  case (Const_T_ctor this v)
  with assms show ?thesis
    by (auto simp: Opt_const_T_def Let_def split: if_splits sum.splits)
next
  case (Rvalue_T_ctor this v)
  with assms show ?thesis
    by (auto simp: Opt_rvalue_T_def Let_def split: if_splits sum.splits)
next
  case (Move_ctor this other)
  with assms have c: "c = this" and om: "Opt_move ops this other w = (Inl err, w')" by auto
  show ?thesis
  proof (cases "\<exists>oth v. heap w other = Some oth \<and> heap w this = None \<and> hasValue oth
                   \<and> valueT oth = Some v \<and> \<not> isl (fst (T_move ops v))")
    case False
    with om c show ?thesis
      by (auto simp: Opt_move_def Let_def
               split: option.splits if_splits sum.splits prod.splits)
  next
    case True
    then obtain oth v where oth: "heap w other = Some oth" and fresh: "heap w this = None"
        and hv: "hasValue oth" and v: "valueT oth = Some v"
        and nl: "\<not> isl (fst (T_move ops v))"
      by blast
    obtain m src' where mv0: "T_move ops v = (m, src')" by (cases "T_move ops v")
    with nl obtain v' where mv: "T_move ops v = (Inr v', src')" by (cases m) auto
    have ne: "this \<noteq> other" using oth fresh by auto
    let ?w1 = "emit (Call this Construct None)
                 (set_value this (Some v')
                    (set_value other (Some src') (put this (Some (raw True)) w)))"
    obtain d w2 where d: "Destroy ops other ?w1 = (d, w2)" by (cases "Destroy ops other ?w1")
    from om oth fresh hv v mv d have w2: "w' = w2" and dl: "isl d"
      by (auto simp: Opt_move_def Let_def split: sum.splits error.splits)
    from d dl w2 oth ne assms(2) have False
      by (auto simp: Destroy_def raw_def split: option.splits if_splits)
    then show ?thesis ..
  qed
qed (use assms in auto)

text \<open>
  C5. Let I1 hold everywhere, and let an operation fail without any call of
  \<open>~T()\<close> having raised in it (the trace records no new failure of a
  destructor): the failure is that of a construction or an assignment of \<open>T\<close>.
  Then I1 holds everywhere afterwards; and when the operation is a constructor,
  there is no more a container at its address than there was before. The
  constructors set the flag in their initialiser list, before \<open>T\<close> is
  constructed, but an exception leaving a constructor leaves no container.
\<close>

theorem failed_T_operation_keeps_flag_consistent:
  assumes "\<forall>a. I1 w a" and "step ops x w = (Inl err, w')"
    and "dtor_failures (trace w') = dtor_failures (trace w)"
  shows "I1 w' a \<and> (\<forall>c \<in> constructed x. heap w' c = heap w c)"
  using I1_step[OF assms(1,2)] assms(3)
        failed_constructor_leaves_no_container[OF assms(2,3)]
  by blast

text \<open>
  C5, witness: \<open>Opt<T> o{1}\<close> where \<open>T(const T&)\<close> raises, and \<open>o = 5\<close> on a present
  \<open>o\<close> where \<open>T\<close>'s assignment raises.
\<close>

theorem failed_T_operation_keeps_flag_consistent_witness:
  "(\<forall>a. I1 (empty_world :: int world) a) \<and>
   step throwing_copy_ops (Const_T_ctor 0 1) empty_world
     = (Inl (Thrown (Exn 5)), emit (Call 0 Construct (Some (Exn 5))) empty_world) \<and>
   (0::nat) \<in> constructed (Const_T_ctor 0 1 :: (int, int) op) \<and>
   I1 (emit (Call 0 Construct (Some (Exn 5))) (empty_world :: int world)) 0 \<and>
   heap (emit (Call 0 Construct (Some (Exn 5))) (empty_world :: int world)) 0 = None \<and>
   (\<forall>a. I1 (snd (run throwing_conv_ops [Const_T_ctor 0 1] empty_world)) a) \<and>
   fst (step throwing_conv_ops (Assign_U 0 5)
          (snd (run throwing_conv_ops [Const_T_ctor 0 1] empty_world)))
     = Inl (Thrown (Exn 4)) \<and>
   I1 (snd (step throwing_conv_ops (Assign_U 0 5)
              (snd (run throwing_conv_ops [Const_T_ctor 0 1] empty_world)))) 0 \<and>
   present_with (snd (step throwing_conv_ops (Assign_U 0 5)
              (snd (run throwing_conv_ops [Const_T_ctor 0 1] empty_world)))) 0 1"
proof -
  let ?e = "empty_world :: int world"
  let ?w1 = "emit (Call 0 Construct (Some (Exn 5))) ?e"
  let ?w = "snd (run throwing_conv_ops [Const_T_ctor 0 1] empty_world)"
  let ?w2 = "snd (step throwing_conv_ops (Assign_U 0 5) ?w)"
  have i0: "\<forall>a. I1 ?e a" by (simp add: I1_empty_world)
  have s1: "step throwing_copy_ops (Const_T_ctor 0 1) ?e = (Inl (Thrown (Exn 5)), ?w1)"
    by (simp add: Opt_const_T_def throwing_copy_ops_def int_ops_def empty_world_def
                  emit_def put_def Let_def)
  have n1: "dtor_failures (trace ?w1) = dtor_failures (trace ?e)" by simp
  have c1: "(0::nat) \<in> constructed (Const_T_ctor 0 1 :: (int, int) op)" by simp
  from failed_T_operation_keeps_flag_consistent[OF i0 s1 n1, of 0] c1
  have r1: "I1 ?w1 0" and r2: "heap ?w1 0 = heap ?e 0" by blast+
  have r2': "heap ?w1 0 = None" using r2 by (simp add: empty_world_def)
  have iw: "\<forall>a. I1 ?w a"
    by (simp add: I1_def op_defs throwing_conv_ops_def int_ops_def live_instances_def
                  constructions_def destructions_def)
  have f2: "fst (step throwing_conv_ops (Assign_U 0 5) ?w) = Inl (Thrown (Exn 4))"
    by (simp add: op_defs throwing_conv_ops_def int_ops_def)
  then have s2: "step throwing_conv_ops (Assign_U 0 5) ?w = (Inl (Thrown (Exn 4)), ?w2)"
    by (metis prod.collapse)
  have n2: "dtor_failures (trace ?w2) = dtor_failures (trace ?w)"
    by (simp add: op_defs throwing_conv_ops_def int_ops_def)
  from failed_T_operation_keeps_flag_consistent[OF iw s2 n2, of 0]
  have r3: "I1 ?w2 0" by blast
  have r4: "present_with ?w2 0 1"
    by (simp add: op_defs throwing_conv_ops_def int_ops_def present_with_def)
  from i0 s1 c1 r1 r2' iw f2 r3 r4 show ?thesis by blast
qed

subsection \<open>C6: the failures of \<open>T\<close> and the caller\<close>

text \<open>
  C6, with the non-throwing operations set apart. Every operation that is not
  non-throwing is exception-neutral: it returns exactly when no operation of \<open>T\<close>
  raised in it, and when one raised \<open>e\<close> it exits by \<open>e\<close>, nothing having been
  raised before or after (not intercepted, not translated, not retried); it
  never ends the program. The move constructor is declared \<open>noexcept\<close>, and the
  destructor may be non-throwing by its implicit specification: such an
  operation never exits by an exception, and a failure of \<open>T\<close> in it ends the
  program. The only other ways an operation fails are the assertion of the
  access operations and a use outside the language's rules, and then the state
  is as it was.
\<close>

theorem T_failures_reach_the_caller:
  assumes "step ops x w = (r, w')"
  shows "if nonthrowing ops x then noexcept_outcome r w w' else neutral_outcome r w w'"
proof (cases x)
  case (Default_ctor this)
  with assms show ?thesis
    by (auto simp: Opt_default_def neutral_outcome_def split: if_splits)
next
  case (NullOpt_ctor this)
  with assms show ?thesis
    by (auto simp: Opt_NullOpt_def neutral_outcome_def split: if_splits)
next
  case (Copy_ctor this other)
  with assms show ?thesis by (simp add: neutral_Opt_copy)
next
  case (Move_ctor this other)
  with assms show ?thesis by (simp add: noexcept_Opt_move)
next
  case (Const_T_ctor this v)
  with assms show ?thesis by (simp add: neutral_Opt_const_T)
next
  case (Rvalue_T_ctor this v)
  with assms show ?thesis by (simp add: neutral_Opt_rvalue_T)
next
  case (To_bool this)
  with assms show ?thesis
    by (auto simp: operator_bool_def neutral_outcome_def split: option.splits)
next
  case (Deref_lvalue this)
  with assms show ?thesis by (simp add: operator_deref_lvalue_def neutral_deref)
next
  case (Deref_const_lvalue this)
  with assms show ?thesis by (simp add: operator_deref_const_lvalue_def neutral_deref)
next
  case (Deref_rvalue this)
  with assms show ?thesis by (simp add: operator_deref_rvalue_def neutral_deref)
next
  case (Deref_const_rvalue this)
  with assms show ?thesis by (simp add: operator_deref_const_rvalue_def neutral_deref)
next
  case (Arrow this)
  with assms show ?thesis
    by (auto simp: operator_arrow_def neutral_outcome_def split: option.splits)
next
  case (Assign_U this u)
  with assms show ?thesis by (simp add: neutral_assign_U)
next
  case (Assign_copy this other)
  with assms show ?thesis by (simp add: neutral_assign_copy)
next
  case (Assign_move this other)
  with assms show ?thesis by (simp add: neutral_assign_move)
next
  case (Assign_NullOpt this)
  with assms show ?thesis by (simp add: neutral_assign_NullOpt)
next
  case (Assign_initializer_list this)
  with assms show ?thesis by (simp add: neutral_assign_initializer_list)
next
  case (Dtor this)
  with assms outcome_Opt_dtor[of ops this w r w'] show ?thesis by simp
qed

text \<open>
  C6, witness: \<open>o = 5\<close> on an absent \<open>Opt<T>\<close> where \<open>T(U&&)\<close> raises \<open>Exn 3\<close>: the caller
  receives \<open>Exn 3\<close>, which is all that was raised.
\<close>

theorem T_failures_reach_the_caller_witness:
  "step throwing_conv_ops (Assign_U 0 5) (snd (Opt_default 0 empty_world))
     = (Inl (Thrown (Exn 3)),
        emit (Call 0 Construct (Some (Exn 3))) (snd (Opt_default 0 empty_world))) \<and>
   \<not> nonthrowing throwing_conv_ops (Assign_U 0 5) \<and>
   neutral_outcome (Inl (Thrown (Exn 3)) :: error + int ret)
     (snd (Opt_default 0 (empty_world :: int world)))
     (emit (Call 0 Construct (Some (Exn 3))) (snd (Opt_default 0 empty_world))) \<and>
   raised (trace (emit (Call 0 Construct (Some (Exn 3)))
                    (snd (Opt_default 0 (empty_world :: int world))))) = [Exn 3]"
proof -
  let ?w = "snd (Opt_default 0 (empty_world :: int world))"
  let ?w' = "emit (Call 0 Construct (Some (Exn 3))) ?w"
  have s: "step throwing_conv_ops (Assign_U 0 5) ?w = (Inl (Thrown (Exn 3)), ?w')"
    by (simp add: operator_assign_U_def Opt_default_def throwing_conv_ops_def int_ops_def
                  empty_world_def raw_def put_def)
  have m: "\<not> nonthrowing throwing_conv_ops (Assign_U 0 5)" by simp
  from T_failures_reach_the_caller[OF s] m
  have n: "neutral_outcome (Inl (Thrown (Exn 3)) :: error + int ret) ?w ?w'" by simp
  have r: "raised (trace ?w') = [Exn 3]"
    by (simp add: Opt_default_def empty_world_def)
  from s m n r show ?thesis by blast
qed

text \<open>
  C6 as stated fails at the move constructor: with a \<open>T\<close> whose move constructor
  raises \<open>Exn 2\<close>, \<open>Opt<T> a{5}; Opt<T> b{std::move(a)};\<close> does not exit by \<open>Exn 2\<close>:
  the exception meets \<open>noexcept\<close> and the program is terminated.
\<close>

theorem move_constructor_terminates_counterexample:
  "fst (T_move throwing_move_ops 5) = Inl (Exn 2) \<and>
   fst (step throwing_move_ops (Move_ctor 1 0)
          (snd (step throwing_move_ops (Const_T_ctor 0 5) empty_world))) = Inl Terminate \<and>
   fst (step throwing_move_ops (Move_ctor 1 0)
          (snd (step throwing_move_ops (Const_T_ctor 0 5) empty_world)))
     \<noteq> Inl (Thrown (Exn 2)) \<and>
   raised (trace (snd (step throwing_move_ops (Move_ctor 1 0)
          (snd (step throwing_move_ops (Const_T_ctor 0 5) empty_world))))) = [Exn 2]"
  by (simp add: op_defs throwing_move_ops_def int_ops_def raised_def)

subsection \<open>C7: a copy is independent of its source\<close>

text \<open>
  C7. Let \<open>other\<close> be present with \<open>v\<close> and let \<open>T(const T&)\<close> make \<open>v'\<close> of it (\<open>v' = v\<close>
  for a \<open>T\<close> whose copies are equal to their source). The copy constructor
  returns, the new container is present with \<open>v'\<close>, the source is as it was, and
  the one call of \<open>T\<close> is the construction. After that, whatever sequence of
  operations runs that does not take the copy as an operand it may modify
  (assigning to the source, emptying it, destroying it) leaves the copy as it
  is; and likewise the source under operations on the copy.
\<close>

theorem copy_is_independent_of_source:
  assumes "heap w this = None" and "present_with w other v" and "T_copy ops v = Inr v'"
  shows
    "Opt_copy ops this other w =
       (Inr Unit,
        w\<lparr>heap := (heap w)(this \<mapsto> \<lparr>valueT = Some v', hasValue = True\<rparr>),
          trace := trace w @ [Call this Construct None]\<rparr>) \<and>
     present_with (snd (Opt_copy ops this other w)) this v' \<and>
     present_with (snd (Opt_copy ops this other w)) other v \<and>
     ((\<forall>x \<in> set xs. this \<notin> targets x) \<longrightarrow>
        present_with (snd (run ops xs (snd (Opt_copy ops this other w)))) this v') \<and>
     ((\<forall>x \<in> set xs. other \<notin> targets x) \<longrightarrow>
        present_with (snd (run ops xs (snd (Opt_copy ops this other w)))) other v)"
proof -
  let ?w' = "w\<lparr>heap := (heap w)(this \<mapsto> \<lparr>valueT = Some v', hasValue = True\<rparr>),
               trace := trace w @ [Call this Construct None]\<rparr>"
  from assms have ne: "this \<noteq> other" by (auto simp: present_with_def)
  from assms have c: "Opt_copy ops this other w = (Inr Unit, ?w')"
    by (auto simp: Opt_copy_def Let_def raw_def emit_def put_def set_value_def present_with_def)
  have p1: "present_with ?w' this v'" by (simp add: present_with_def)
  have p2: "present_with ?w' other v" using assms(2) ne by (simp add: present_with_def)
  have f1: "(\<forall>x \<in> set xs. this \<notin> targets x) \<longrightarrow>
              present_with (snd (run ops xs ?w')) this v'"
    using heap_run_frame[of xs this ops ?w'] p1 by (simp add: present_with_def)
  have f2: "(\<forall>x \<in> set xs. other \<notin> targets x) \<longrightarrow>
              present_with (snd (run ops xs ?w')) other v"
    using heap_run_frame[of xs other ops ?w'] p2 by (simp add: present_with_def)
  from c p1 p2 f1 f2 show ?thesis by simp
qed

text \<open>
  C7, witness: \<open>Opt<int> a{7}; Opt<int> b{a};\<close>, and then \<open>a = 9; a = nopt;\<close> and the
  destruction of \<open>a\<close>: \<open>b\<close> still holds 7.
\<close>

theorem copy_is_independent_of_source_witness:
  "heap (snd (run int_ops [Const_T_ctor 0 7] empty_world)) 1 = None \<and>
   present_with (snd (run int_ops [Const_T_ctor 0 7] empty_world)) 0 7 \<and>
   T_copy int_ops 7 = Inr 7 \<and>
   1 \<notin> targets (Assign_U 0 9 :: (int, int) op) \<and>
   1 \<notin> targets (Assign_NullOpt 0 :: (int, int) op) \<and>
   1 \<notin> targets (Dtor 0 :: (int, int) op) \<and>
   present_with (snd (Opt_copy int_ops 1 0 (snd (run int_ops [Const_T_ctor 0 7] empty_world))))
     1 7 \<and>
   present_with (snd (Opt_copy int_ops 1 0 (snd (run int_ops [Const_T_ctor 0 7] empty_world))))
     0 7 \<and>
   present_with
     (snd (run int_ops [Assign_U 0 9, Assign_NullOpt 0, Dtor 0]
        (snd (Opt_copy int_ops 1 0 (snd (run int_ops [Const_T_ctor 0 7] empty_world)))))) 1 7 \<and>
   heap
     (snd (run int_ops [Assign_U 0 9, Assign_NullOpt 0, Dtor 0]
        (snd (Opt_copy int_ops 1 0 (snd (run int_ops [Const_T_ctor 0 7] empty_world)))))) 0
     = None \<and>
   0 \<notin> targets (Assign_U 1 3 :: (int, int) op) \<and>
   0 \<notin> targets (Dtor 1 :: (int, int) op) \<and>
   present_with
     (snd (run int_ops [Assign_U 1 3, Dtor 1]
        (snd (Opt_copy int_ops 1 0 (snd (run int_ops [Const_T_ctor 0 7] empty_world)))))) 0 7"
proof -
  let ?w = "snd (run int_ops [Const_T_ctor 0 7] empty_world)"
  let ?xs = "[Assign_U 0 9, Assign_NullOpt 0, Dtor 0 :: (int, int) op]"
  let ?ys = "[Assign_U 1 3, Dtor 1 :: (int, int) op]"
  have f: "heap ?w 1 = None" by (simp add: op_defs int_ops_def)
  have p: "present_with ?w 0 7" by (simp add: op_defs int_ops_def present_with_def)
  have c: "T_copy int_ops 7 = Inr 7" by (simp add: int_ops_def)
  have tx: "\<forall>x \<in> set ?xs. 1 \<notin> targets x" by simp
  have ty: "\<forall>x \<in> set ?ys. 0 \<notin> targets x" by simp
  note T = copy_is_independent_of_source[OF f p c]
  from T[of ?xs] tx
  have r1: "present_with (snd (run int_ops ?xs (snd (Opt_copy int_ops 1 0 ?w)))) 1 7"
    and r0: "present_with (snd (Opt_copy int_ops 1 0 ?w)) 0 7"
    and r2: "present_with (snd (Opt_copy int_ops 1 0 ?w)) 1 7"
    by blast+
  from T[of ?ys] ty
  have r3: "present_with (snd (run int_ops ?ys (snd (Opt_copy int_ops 1 0 ?w)))) 0 7"
    by blast
  have g: "heap (snd (run int_ops ?xs (snd (Opt_copy int_ops 1 0 ?w)))) 0 = None"
    by (simp add: op_defs int_ops_def)
  from f p c r2 r0 r1 g r3 show ?thesis by simp
qed

subsection \<open>C8: access returns the stored value\<close>

text \<open>
  C8. On a container present with \<open>v\<close>, each of the four overloads of \<open>operator *\<close>
  (mutable, read-only, and the two on an expiring container) returns a
  reference to \<open>v\<close> and leaves the whole state, the presence flag included, as
  it was.
\<close>

theorem access_returns_stored_value:
  assumes "present_with w this v"
  shows "operator_deref_lvalue this w = (Inr (Ref v), w) \<and>
         operator_deref_const_lvalue this w = (Inr (Ref v), w) \<and>
         operator_deref_rvalue this w = (Inr (Ref v), w) \<and>
         operator_deref_const_rvalue this w = (Inr (Ref v), w)"
  using assms
  by (simp add: operator_deref_lvalue_def operator_deref_const_lvalue_def
                operator_deref_rvalue_def operator_deref_const_rvalue_def deref_def
                present_with_def)

text \<open>
  C8, witness: \<open>Opt<int> o; o = 10; *o\<close>: the value stored by the assignment is the
  value read.
\<close>

theorem access_returns_stored_value_witness:
  "present_with (snd (run int_ops [Default_ctor 0, Assign_U 0 10] empty_world)) 0 10 \<and>
   operator_deref_lvalue 0 (snd (run int_ops [Default_ctor 0, Assign_U 0 10] empty_world))
     = (Inr (Ref 10), snd (run int_ops [Default_ctor 0, Assign_U 0 10] empty_world)) \<and>
   operator_deref_const_lvalue 0 (snd (run int_ops [Default_ctor 0, Assign_U 0 10] empty_world))
     = (Inr (Ref 10), snd (run int_ops [Default_ctor 0, Assign_U 0 10] empty_world))"
proof -
  let ?w = "snd (run int_ops [Default_ctor 0, Assign_U 0 10] empty_world)"
  have p: "present_with ?w 0 10" by (simp add: op_defs int_ops_def present_with_def)
  from access_returns_stored_value[OF p] p show ?thesis by blast
qed

subsection \<open>C9: default construction and construction from the absent marker\<close>

text \<open>
  C9. \<open>Opt()\<close> and \<open>Opt(nopt)\<close> at the same address in the same state give the same
  result and the same state; at an address that holds no container both return
  and the new container is absent; and every sequence of operations run after
  the one gives the same results and the same final state as run after the
  other.
\<close>

theorem default_and_NullOpt_construction_agree:
  "Opt_default this w = Opt_NullOpt this w \<and>
   (heap w this = None \<longrightarrow>
      fst (Opt_default this w) = Inr Unit \<and> absent (snd (Opt_default this w)) this \<and>
      fst (Opt_NullOpt this w) = Inr Unit \<and> absent (snd (Opt_NullOpt this w)) this) \<and>
   run ops xs (snd (Opt_default this w)) = run ops xs (snd (Opt_NullOpt this w)) \<and>
   run ops (Default_ctor this # xs) w = run ops (NullOpt_ctor this # xs) w"
  by (simp add: Opt_default_def Opt_NullOpt_def raw_def absent_def)

text \<open>
  C9, witness: in the empty store, with \<open>o = 10; o = {}; *o\<close> run afterwards.
\<close>

theorem default_and_NullOpt_construction_agree_witness:
  "heap (empty_world :: int world) 0 = None \<and>
   absent (snd (Opt_default 0 (empty_world :: int world))) 0 \<and>
   absent (snd (Opt_NullOpt 0 (empty_world :: int world))) 0 \<and>
   run int_ops (Default_ctor 0 # [Assign_U 0 10, Assign_initializer_list 0, Deref_lvalue 0])
       empty_world
     = run int_ops (NullOpt_ctor 0 # [Assign_U 0 10, Assign_initializer_list 0, Deref_lvalue 0])
         empty_world \<and>
   fst (run int_ops (Default_ctor 0 # [Assign_U 0 10, Assign_initializer_list 0, Deref_lvalue 0])
          empty_world)
     = [Inr Unit, Inr (Self 0), Inr (Self 0), Inl Assertion_failed]"
proof -
  have h: "heap (empty_world :: int world) 0 = None" by (simp add: empty_world_def)
  note T = default_and_NullOpt_construction_agree[where this = 0
             and w = "empty_world :: int world" and ops = int_ops
             and xs = "[Assign_U 0 10, Assign_initializer_list 0, Deref_lvalue 0]"]
  from T h have a1: "absent (snd (Opt_default 0 (empty_world :: int world))) 0"
    and a2: "absent (snd (Opt_NullOpt 0 (empty_world :: int world))) 0"
    and e: "run int_ops (Default_ctor 0 # [Assign_U 0 10, Assign_initializer_list 0,
                                           Deref_lvalue 0]) empty_world
          = run int_ops (NullOpt_ctor 0 # [Assign_U 0 10, Assign_initializer_list 0,
                                           Deref_lvalue 0]) empty_world"
    by blast+
  have r: "fst (run int_ops (Default_ctor 0 # [Assign_U 0 10, Assign_initializer_list 0,
                                               Deref_lvalue 0]) empty_world)
          = [Inr Unit, Inr (Self 0), Inr (Self 0), Inl Assertion_failed]"
    by (simp add: op_defs int_ops_def)
  from h a1 a2 e r show ?thesis by blast
qed

subsection \<open>C10: a move from an absent source\<close>

lemma destructions_snoc [simp]:
  "destructions a (tr @ [Call b k r]) =
     destructions a tr + (if b = a \<and> k = Destruct then 1 else 0)"
  by (simp add: destructions_def)

text \<open>
  C10. Let the source \<open>other\<close> have its flag clear. The move constructor calls no
  operation of \<open>T\<close> at all and leaves the source as it was. The move assignment
  leaves the source as it was and calls no destructor on it: what it destroys
  is the value of \<open>this\<close>, if \<open>this\<close> was present. Both hold whatever the state of
  \<open>this\<close>, and whether or not \<open>T\<close>'s operations raise.
\<close>

theorem move_from_absent_leaves_source:
  assumes "heap w other = Some oth" and "\<not> hasValue oth"
  shows "heap (snd (Opt_move ops this other w)) other = Some oth \<and>
         trace (snd (Opt_move ops this other w)) = trace w \<and>
         heap (snd (operator_assign_move ops this other w)) other = Some oth \<and>
         destructions other (trace (snd (operator_assign_move ops this other w)))
           = destructions other (trace w)"
proof -
  from assms have m1: "heap (snd (Opt_move ops this other w)) other = Some oth"
    and m2: "trace (snd (Opt_move ops this other w)) = trace w"
    by (auto simp: Opt_move_def Let_def)
  from assms have a1: "heap (snd (operator_assign_move ops this other w)) other = Some oth"
    and a2: "destructions other (trace (snd (operator_assign_move ops this other w)))
               = destructions other (trace w)"
    by (auto simp: operator_assign_move_def Destroy_def split: option.splits)
  from m1 m2 a1 a2 show ?thesis by blast
qed

text \<open>
  C10, witness: \<open>Opt<int> a; Opt<int> b{4};\<close> and then \<open>Opt<int> c{std::move(a)}\<close>, or
  \<open>b = std::move(a)\<close>, which empties \<open>b\<close> and leaves \<open>a\<close> alone.
\<close>

theorem move_from_absent_leaves_source_witness:
  "heap (snd (run int_ops [Default_ctor 0, Const_T_ctor 1 4] empty_world)) 0
     = Some \<lparr>valueT = None, hasValue = False\<rparr> \<and>
   \<not> hasValue \<lparr>valueT = None :: int option, hasValue = False\<rparr> \<and>
   absent (snd (Opt_move int_ops 2 0
                  (snd (run int_ops [Default_ctor 0, Const_T_ctor 1 4] empty_world)))) 0 \<and>
   absent (snd (Opt_move int_ops 2 0
                  (snd (run int_ops [Default_ctor 0, Const_T_ctor 1 4] empty_world)))) 2 \<and>
   absent (snd (operator_assign_move int_ops 1 0
                  (snd (run int_ops [Default_ctor 0, Const_T_ctor 1 4] empty_world)))) 0 \<and>
   absent (snd (operator_assign_move int_ops 1 0
                  (snd (run int_ops [Default_ctor 0, Const_T_ctor 1 4] empty_world)))) 1 \<and>
   destructions 0 (trace (snd (operator_assign_move int_ops 1 0
                  (snd (run int_ops [Default_ctor 0, Const_T_ctor 1 4] empty_world))))) = 0"
proof -
  let ?w = "snd (run int_ops [Default_ctor 0, Const_T_ctor 1 4] empty_world)"
  let ?c = "\<lparr>valueT = None :: int option, hasValue = False\<rparr>"
  have h: "heap ?w 0 = Some ?c" by (simp add: op_defs int_ops_def)
  have n: "\<not> hasValue ?c" by simp
  have d0: "destructions 0 (trace ?w) = 0"
    by (simp add: op_defs int_ops_def destructions_def)
  from move_from_absent_leaves_source[OF h n, of int_ops 2]
  have r1: "absent (snd (Opt_move int_ops 2 0 ?w)) 0" by (simp add: absent_def)
  from move_from_absent_leaves_source[OF h n, of int_ops 1] d0
  have r2: "absent (snd (operator_assign_move int_ops 1 0 ?w)) 0"
    and r3: "destructions 0 (trace (snd (operator_assign_move int_ops 1 0 ?w))) = 0"
    by (simp_all add: absent_def)
  have r4: "absent (snd (Opt_move int_ops 2 0 ?w)) 2"
    by (simp add: op_defs int_ops_def absent_def)
  have r5: "absent (snd (operator_assign_move int_ops 1 0 ?w)) 1"
    by (simp add: op_defs int_ops_def absent_def)
  from h n r1 r4 r2 r5 r3 show ?thesis by blast
qed

end
